theory Spec2Isabelle
  imports Complex_Main "HOL-Library.Sublist" "HOL-Library.Log_Nat"
begin

section \<open>Smart energy monitor: data model\<close>

text \<open>
  The program of \<^verbatim>\<open>src/main.py\<close> simulates appliance readings, publishes them
  over MQTT and derives suggestions from the collected history.

  Consumption values are Python floats, that is IEEE 754 binary64 numbers; they are
  modelled with the rounding of every operation. A \<^verbatim>\<open>pd.Timestamp\<close> is
  modelled by its number of nanoseconds since the epoch.
\<close>

text \<open>
  Python exceptions. \<^verbatim>\<open>KeyError\<close>, \<^verbatim>\<open>TypeError\<close> and every other
  error class derive from \<^verbatim>\<open>Exception\<close>; \<^verbatim>\<open>KeyboardInterrupt\<close> and
  \<^verbatim>\<open>SystemExit\<close> derive from \<^verbatim>\<open>BaseException\<close> only, so that
  \<^verbatim>\<open>except Exception\<close> does not catch them.
\<close>

datatype exn =
    KeyError string
  | TypeError string
  | OtherError string
  | KeyboardInterrupt
  | SystemExit

fun is_Exception :: "exn \<Rightarrow> bool" where
  "is_Exception (KeyError _) = True"
| "is_Exception (TypeError _) = True"
| "is_Exception (OtherError _) = True"
| "is_Exception KeyboardInterrupt = False"
| "is_Exception SystemExit = False"

section \<open>Floating-point numbers\<close>

text \<open>
  A double is a finite value, an infinity or a NaN. A finite double is given by its
  exact rational value; the sign of a zero is not modelled, since no comparison, sum or
  rounding of the program depends on it.
\<close>

datatype double = Finite rat | PosInf | NegInf | NaN

text \<open>
  The binary exponent of a nonzero rational \<open>x\<close>: the integer \<open>e\<close> with
  \<open>2 powi e \<le> \<bar>x\<bar> < 2 powi (e + 1)\<close>.
\<close>

definition exponent :: "rat \<Rightarrow> int" where
  "exponent x =
     (if 1 \<le> \<bar>x\<bar> then bitlen \<lfloor>\<bar>x\<bar>\<rfloor> - 1
      else - bitlen (\<lceil>1 / \<bar>x\<bar>\<rceil> - 1))"

text \<open>
  Rounding to the nearest integer, a tie going to the even neighbour.
\<close>

definition round_half_even :: "rat \<Rightarrow> int" where
  "round_half_even x =
     (let f = \<lfloor>x\<rfloor>; r = x - of_int f
      in if r < 1 / 2 then f
         else if r > 1 / 2 then f + 1
         else if even f then f else f + 1)"

text \<open>
  Rounding an exact result to a double. Around \<open>x\<close> the doubles are the multiples
  of \<open>quantum x\<close>: 53 significant bits, and the fixed spacing of the subnormal
  range below the exponent -1022. The result is rounded to the nearest multiple, a tie
  going to the even significand; a rounded value of exponent 1024 or more overflows to
  an infinity.
\<close>

definition quantum :: "rat \<Rightarrow> rat" where
  "quantum x = 2 powi (max (exponent x) (- 1022) - 52)"

definition round_to_grid :: "rat \<Rightarrow> rat" where
  "round_to_grid x = of_int (round_half_even (x / quantum x)) * quantum x"

definition round_to_double :: "rat \<Rightarrow> double" where
  "round_to_double x =
     (let y = round_to_grid x
      in if 1024 \<le> exponent y \<and> y \<noteq> 0 then (if 0 < y then PosInf else NegInf)
         else Finite y)"

text \<open>
  The operations of the program: \<^verbatim>\<open>+\<close>, \<^verbatim>\<open>-\<close>, \<^verbatim>\<open>*\<close>,
  \<^verbatim>\<open>>\<close> and \<^verbatim>\<open><=\<close> on floats.
\<close>

fun fadd :: "double \<Rightarrow> double \<Rightarrow> double" where
  "fadd (Finite a) (Finite b) = round_to_double (a + b)"
| "fadd NaN _ = NaN"
| "fadd _ NaN = NaN"
| "fadd PosInf NegInf = NaN"
| "fadd NegInf PosInf = NaN"
| "fadd PosInf _ = PosInf"
| "fadd NegInf _ = NegInf"
| "fadd _ PosInf = PosInf"
| "fadd _ NegInf = NegInf"

fun fneg :: "double \<Rightarrow> double" where
  "fneg (Finite a) = Finite (- a)"
| "fneg PosInf = NegInf"
| "fneg NegInf = PosInf"
| "fneg NaN = NaN"

definition fsub :: "double \<Rightarrow> double \<Rightarrow> double" where
  "fsub a b = fadd a (fneg b)"

fun fsign :: "double \<Rightarrow> int" where
  "fsign (Finite a) = (if a < 0 then - 1 else if a = 0 then 0 else 1)"
| "fsign PosInf = 1"
| "fsign NegInf = - 1"
| "fsign NaN = 0"

fun fmul :: "double \<Rightarrow> double \<Rightarrow> double" where
  "fmul (Finite a) (Finite b) = round_to_double (a * b)"
| "fmul NaN _ = NaN"
| "fmul _ NaN = NaN"
| "fmul a b =
     (if fsign a * fsign b = 0 then NaN
      else if 0 < fsign a * fsign b then PosInf else NegInf)"

fun fgt :: "double \<Rightarrow> double \<Rightarrow> bool" where
  "fgt (Finite a) (Finite b) = (a > b)"
| "fgt NaN _ = False"
| "fgt _ NaN = False"
| "fgt PosInf PosInf = False"
| "fgt PosInf _ = True"
| "fgt NegInf _ = False"
| "fgt _ NegInf = True"
| "fgt _ PosInf = False"

fun fle :: "double \<Rightarrow> double \<Rightarrow> bool" where
  "fle (Finite a) (Finite b) = (a \<le> b)"
| "fle NaN _ = False"
| "fle _ NaN = False"
| "fle NegInf _ = True"
| "fle _ PosInf = True"
| "fle PosInf _ = False"
| "fle _ NegInf = False"

text \<open>
  A float literal of the source denotes the double nearest to its decimal value.
  \<^verbatim>\<open>len(data)\<close> is converted to a float when it is multiplied with one; a
  list cannot be long enough for that conversion to overflow.
\<close>

definition float_lit :: "rat \<Rightarrow> double" where
  "float_lit x = round_to_double x"

definition float_of_nat :: "nat \<Rightarrow> double" where
  "float_of_nat n = round_to_double (of_nat n)"

text \<open>
  A reading is the dict \<^verbatim>\<open>{"timestamp": ..., "appliances": {...}}\<close>; the inner
  dict maps category names to values.
\<close>

record reading =
  timestamp :: int
  appliances :: "string \<rightharpoonup> double"

section \<open>The usage advisor\<close>

text \<open>
  \<^verbatim>\<open>sum(d['appliances'][k] for d in data)\<close>: the running sum starts at 0 and
  adds the values from left to right, each addition rounding; a missing key raises
  \<^verbatim>\<open>KeyError\<close> at the first reading that lacks it. This is the plain float
  loop of \<^verbatim>\<open>sum\<close>; the compensation of rounding errors that CPython 3.12 and
  later add to it is not modelled.
\<close>

fun sum_appliance :: "string \<Rightarrow> reading list \<Rightarrow> double \<Rightarrow> exn + double" where
  "sum_appliance k [] acc = Inr acc"
| "sum_appliance k (d # ds) acc =
     (case appliances d k of
        None \<Rightarrow> Inl (KeyError k)
      | Some v \<Rightarrow> sum_appliance k ds (fadd acc v))"

definition msg_heating :: string where
  "msg_heating = ''Consider lowering the thermostat for heating.''"

definition msg_cooling :: string where
  "msg_cooling = ''Consider raising the thermostat for cooling.''"

definition msg_lighting :: string where
  "msg_lighting = ''Consider switching off lights in unoccupied rooms.''"

definition msg_electronics :: string where
  "msg_electronics = ''Consider unplugging unused electronics.''"

text \<open>
  The advisor: four sums over the history, then the four threshold rules in the order
  of the source, each appending its suggestion or not.
\<close>

definition optimize_energy_usage :: "reading list \<Rightarrow> exn + string list" where
  "optimize_energy_usage data =
     (case sum_appliance ''heating'' data (Finite 0) of
        Inl e \<Rightarrow> Inl e | Inr total_heating \<Rightarrow>
     (case sum_appliance ''cooling'' data (Finite 0) of
        Inl e \<Rightarrow> Inl e | Inr total_cooling \<Rightarrow>
     (case sum_appliance ''lighting'' data (Finite 0) of
        Inl e \<Rightarrow> Inl e | Inr total_lighting \<Rightarrow>
     (case sum_appliance ''electronics'' data (Finite 0) of
        Inl e \<Rightarrow> Inl e | Inr total_electronics \<Rightarrow>
        (let suggestions = [];
             suggestions = (if fgt total_heating total_cooling
                            then suggestions @ [msg_heating] else suggestions);
             suggestions = (if fgt total_cooling total_heating
                            then suggestions @ [msg_cooling] else suggestions);
             suggestions = (if fgt total_lighting
                                 (fmul (float_lit 0.3) (float_of_nat (length data)))
                            then suggestions @ [msg_lighting] else suggestions);
             suggestions = (if fgt total_electronics
                                 (fmul (float_lit 0.5) (float_of_nat (length data)))
                            then suggestions @ [msg_electronics] else suggestions)
         in Inr suggestions)))))"

text \<open>
  The total of a category over a history, as the float sum of its values from left to
  right, and the readings that carry all four categories.
\<close>

definition total_of :: "string \<Rightarrow> reading list \<Rightarrow> double" where
  "total_of k data =
     foldl fadd (Finite 0)
       (map (\<lambda>d. case appliances d k of None \<Rightarrow> Finite 0 | Some v \<Rightarrow> v) data)"

definition categories :: "string list" where
  "categories = [''heating'', ''cooling'', ''lighting'', ''electronics'']"

definition wf_reading :: "reading \<Rightarrow> bool" where
  "wf_reading d = list_all (\<lambda>k. appliances d k \<noteq> None) categories"

text \<open>
  A reading whose four values are written as float literals, for concrete evaluation.
\<close>

definition example_reading :: "rat \<Rightarrow> rat \<Rightarrow> rat \<Rightarrow> rat \<Rightarrow> reading" where
  "example_reading h c l e =
     \<lparr> timestamp = 0,
       appliances = [''heating'' \<mapsto> float_lit h, ''cooling'' \<mapsto> float_lit c,
                     ''lighting'' \<mapsto> float_lit l, ''electronics'' \<mapsto> float_lit e] \<rparr>"

section \<open>The reading generator\<close>

text \<open>
  \<^verbatim>\<open>random.uniform(a, b)\<close> is \<^verbatim>\<open>a + (b - a) * random()\<close>, where
  \<^verbatim>\<open>random()\<close> draws a double from the half-open unit interval. The draw is an
  input of the model.
\<close>

definition uniform :: "double \<Rightarrow> double \<Rightarrow> double \<Rightarrow> double" where
  "uniform a b u = fadd a (fmul (fsub b a) u)"

text \<open>
  \<^verbatim>\<open>round(x, ndigits)\<close> on a float: the exact value of \<open>x\<close> is rounded to
  the nearest multiple of \<open>10 ^ ndigits\<close>-th, a tie going to the even neighbour,
  and the result is the double nearest to that decimal. An infinity or a NaN is
  returned as it is.
\<close>

fun py_round :: "double \<Rightarrow> nat \<Rightarrow> double" where
  "py_round (Finite x) ndigits =
     round_to_double (of_int (round_half_even (x * 10 ^ ndigits)) / 10 ^ ndigits)"
| "py_round x ndigits = x"

text \<open>
  \<^verbatim>\<open>generate_energy_data()\<close>, given the clock reading and the four draws in
  the order in which the dict literal evaluates them.
\<close>

definition generate_energy_data ::
  "int \<Rightarrow> double \<Rightarrow> double \<Rightarrow> double \<Rightarrow> double \<Rightarrow> reading" where
  "generate_energy_data now u1 u2 u3 u4 =
     \<lparr> timestamp = now,
       appliances = [
         ''heating'' \<mapsto> py_round (uniform (float_lit 0.5) (float_lit 3.0) u1) 2,
         ''cooling'' \<mapsto> py_round (uniform (float_lit 0.5) (float_lit 3.0) u2) 2,
         ''lighting'' \<mapsto> py_round (uniform (float_lit 0.1) (float_lit 0.5) u3) 2,
         ''electronics'' \<mapsto> py_round (uniform (float_lit 0.2) (float_lit 1.0) u4) 2] \<rparr>"

text \<open>
  A draw of \<^verbatim>\<open>random()\<close>; a float that rounding to two decimal digits leaves
  unchanged; a reading whose value for a category exists, lies between the two float
  literals and has two decimal digits.
\<close>

fun unit_draw :: "double \<Rightarrow> bool" where
  "unit_draw (Finite x) = (0 \<le> x \<and> x < 1)"
| "unit_draw _ = False"

definition two_decimals :: "double \<Rightarrow> bool" where
  "two_decimals v = (py_round v 2 = v)"

definition in_range :: "reading \<Rightarrow> string \<Rightarrow> rat \<Rightarrow> rat \<Rightarrow> bool" where
  "in_range d k lo hi =
     (case appliances d k of
        None \<Rightarrow> False
      | Some v \<Rightarrow> fle (float_lit lo) v \<and> fle v (float_lit hi) \<and> two_decimals v)"

section \<open>Serialization\<close>

text \<open>
  Python values as far as a reading needs them, and JSON values. The payload of a
  message is modelled by its JSON value; rendering it as text is outside the model.
\<close>

datatype pyval =
    PyFloat double
  | PyStr string
  | PyTimestamp int
  | PyDict "(string \<times> pyval) list"

datatype json =
    JNumber double
  | JString string
  | JObject "(string \<times> json) list"

text \<open>
  The dict that \<^verbatim>\<open>generate_energy_data\<close> builds, as a Python value: the key
  \<^verbatim>\<open>timestamp\<close> first, then \<^verbatim>\<open>appliances\<close> with its items in the order
  of insertion. The timestamp is a \<^verbatim>\<open>pd.Timestamp\<close> object.
\<close>

definition reading_value :: "reading \<Rightarrow> pyval" where
  "reading_value d =
     PyDict [(''timestamp'', PyTimestamp (timestamp d)),
             (''appliances'',
              PyDict (concat (map (\<lambda>k. case appliances d k of
                                           None \<Rightarrow> []
                                         | Some v \<Rightarrow> [(k, PyFloat v)]) categories)))]"

text \<open>
  \<^verbatim>\<open>json.dumps\<close> with the default encoder, and \<^verbatim>\<open>json.loads\<close>. The
  default encoder serializes dicts, strings and numbers; for an object of any other
  class, such as \<^verbatim>\<open>pd.Timestamp\<close>, it raises \<^verbatim>\<open>TypeError\<close>. The items of
  a dict are encoded in order, so the first offending value raises.
\<close>

fun json_dumps :: "pyval \<Rightarrow> exn + json"
  and json_dumps_items :: "(string \<times> pyval) list \<Rightarrow> exn + (string \<times> json) list" where
  "json_dumps (PyFloat x) = Inr (JNumber x)"
| "json_dumps (PyStr s) = Inr (JString s)"
| "json_dumps (PyTimestamp t) =
     Inl (TypeError ''Object of type Timestamp is not JSON serializable'')"
| "json_dumps (PyDict items) =
     (case json_dumps_items items of Inl e \<Rightarrow> Inl e | Inr js \<Rightarrow> Inr (JObject js))"
| "json_dumps_items [] = Inr []"
| "json_dumps_items ((k, v) # items) =
     (case json_dumps v of
        Inl e \<Rightarrow> Inl e
      | Inr j \<Rightarrow> (case json_dumps_items items of
                    Inl e \<Rightarrow> Inl e
                  | Inr js \<Rightarrow> Inr ((k, j) # js)))"

fun json_loads :: "json \<Rightarrow> pyval" where
  "json_loads (JNumber x) = PyFloat x"
| "json_loads (JString s) = PyStr s"
| "json_loads (JObject items) = PyDict (map (\<lambda>(k, j). (k, json_loads j)) items)"

fun serializable :: "pyval \<Rightarrow> bool" where
  "serializable (PyFloat x) = True"
| "serializable (PyStr s) = True"
| "serializable (PyTimestamp t) = False"
| "serializable (PyDict items) = list_all (\<lambda>(k, v). serializable v) items"

section \<open>The publisher loop and the main program\<close>

text \<open>
  The observable behaviour of the main thread is a trace of events: the lines printed
  and the calls made on the MQTT client. The program state is the global
  \<^verbatim>\<open>ENERGY_DATA\<close> and the trace so far. The callbacks
  \<^verbatim>\<open>on_connect\<close> and \<^verbatim>\<open>on_message\<close> run on the client's own thread and
  are not part of the model.
\<close>

definition MQTT_TOPIC :: string where
  "MQTT_TOPIC = ''home/energy''"

datatype event =
    PrintPublishing reading
  | Published string json
  | Slept nat
  | PrintPublishError exn
  | PrintSetupError exn
  | Connected
  | LoopStarted
  | LoopStopped
  | PrintHeader
  | PrintSuggestion string

record state =
  ENERGY_DATA :: "reading list"
  trace :: "event list"

text \<open>
  The world outside the program: whether \<^verbatim>\<open>client.connect\<close> and
  \<^verbatim>\<open>client.loop_start\<close> raise, and for the iteration \<open>i\<close> of the loop the
  clock reading and the four random draws (or the exception raised while generating),
  and whether \<^verbatim>\<open>client.publish\<close> and \<^verbatim>\<open>time.sleep\<close> raise.
\<close>

record world =
  connect_raises :: "exn option"
  loop_start_raises :: "exn option"
  clock_and_draws :: "nat \<Rightarrow> exn + (int \<times> double \<times> double \<times> double \<times> double)"
  publish_raises :: "nat \<Rightarrow> exn option"
  sleep_raises :: "nat \<Rightarrow> exn option"

definition emit :: "event \<Rightarrow> state \<Rightarrow> state" where
  "emit ev s = s\<lparr>trace := trace s @ [ev]\<rparr>"

definition initial_state :: state where
  "initial_state = \<lparr>ENERGY_DATA = [], trace = []\<rparr>"

text \<open>
  One iteration of the body of \<^verbatim>\<open>while True\<close>: generate, append to the
  history, print, serialize, publish, sleep. The result is the state reached and the
  exception raised, if any; effects made before the exception stay. The serializer is
  a parameter \<open>dumps\<close>; the program runs with \<open>json_dumps\<close>.
\<close>

definition loop_body ::
  "(pyval \<Rightarrow> exn + json) \<Rightarrow> world \<Rightarrow> nat \<Rightarrow> state \<Rightarrow> state \<times> exn option" where
  "loop_body dumps w i s =
     (case clock_and_draws w i of
        Inl e \<Rightarrow> (s, Some e)
      | Inr (now, u1, u2, u3, u4) \<Rightarrow>
          (let energy_data = generate_energy_data now u1 u2 u3 u4;
               s = s\<lparr>ENERGY_DATA := ENERGY_DATA s @ [energy_data]\<rparr>;
               s = emit (PrintPublishing energy_data) s
           in case dumps (reading_value energy_data) of
                Inl e \<Rightarrow> (s, Some e)
              | Inr payload \<Rightarrow>
                  (case publish_raises w i of
                     Some e \<Rightarrow> (s, Some e)
                   | None \<Rightarrow>
                       (let s = emit (Published MQTT_TOPIC payload) s
                        in case sleep_raises w i of
                             Some e \<Rightarrow> (s, Some e)
                           | None \<Rightarrow> (emit (Slept 5) s, None)))))"

text \<open>
  The loop has no exit but an exception, and it may run forever: the result
  \<open>None\<close> stands for a run that does not end.
\<close>

partial_function (option) while_true ::
  "(pyval \<Rightarrow> exn + json) \<Rightarrow> world \<Rightarrow> nat \<Rightarrow> state \<Rightarrow> (state \<times> exn) option" where
  "while_true dumps w i s =
     (case loop_body dumps w i s of
        (s', Some e) \<Rightarrow> Some (s', e)
      | (s', None) \<Rightarrow> while_true dumps w (Suc i) s')"

text \<open>
  \<^verbatim>\<open>publish_energy_data\<close>: the loop inside
  \<^verbatim>\<open>try ... except Exception\<close>. An exception of class \<^verbatim>\<open>Exception\<close> is
  logged and the function returns; any other exception leaves the function.
\<close>

definition publish_energy_data ::
  "(pyval \<Rightarrow> exn + json) \<Rightarrow> world \<Rightarrow> state \<Rightarrow> (state \<times> exn option) option" where
  "publish_energy_data dumps w s =
     (case while_true dumps w 0 s of
        None \<Rightarrow> None
      | Some (s', e) \<Rightarrow>
          if is_Exception e then Some (emit (PrintPublishError e) s', None)
          else Some (s', Some e))"

text \<open>
  The state after the first \<open>n\<close> iterations counted from iteration \<open>i\<close>.
\<close>

fun iterations ::
  "(pyval \<Rightarrow> exn + json) \<Rightarrow> world \<Rightarrow> nat \<Rightarrow> nat \<Rightarrow> state \<Rightarrow> state" where
  "iterations dumps w i 0 s = s"
| "iterations dumps w i (Suc n) s = iterations dumps w (Suc i) n (fst (loop_body dumps w i s))"

text \<open>
  The main block: the guarded region, its handler and the \<^verbatim>\<open>finally\<close> block.
  The \<^verbatim>\<open>finally\<close> block stops the client loop, runs the advisor on the history
  and prints the header and the suggestions; an exception pending from the guarded
  region is raised again after it.
\<close>

definition main_try ::
  "(pyval \<Rightarrow> exn + json) \<Rightarrow> world \<Rightarrow> state \<Rightarrow> (state \<times> exn option) option" where
  "main_try dumps w s =
     (case connect_raises w of
        Some e \<Rightarrow> Some (s, Some e)
      | None \<Rightarrow>
          (let s = emit Connected s
           in case loop_start_raises w of
                Some e \<Rightarrow> Some (s, Some e)
              | None \<Rightarrow> publish_energy_data dumps w (emit LoopStarted s)))"

definition main_except :: "state \<times> exn option \<Rightarrow> state \<times> exn option" where
  "main_except r =
     (case r of
        (s, None) \<Rightarrow> (s, None)
      | (s, Some e) \<Rightarrow>
          if is_Exception e then (emit (PrintSetupError e) s, None) else (s, Some e))"

definition main_finally :: "state \<times> exn option \<Rightarrow> state \<times> exn option" where
  "main_finally r =
     (case r of (s, pending) \<Rightarrow>
        (let s = emit LoopStopped s
         in case optimize_energy_usage (ENERGY_DATA s) of
              Inl e \<Rightarrow> (s, Some e)
            | Inr optimizations \<Rightarrow>
                (s\<lparr>trace := trace s @ PrintHeader # map PrintSuggestion optimizations\<rparr>,
                 pending)))"

definition main ::
  "(pyval \<Rightarrow> exn + json) \<Rightarrow> world \<Rightarrow> (state \<times> exn option) option" where
  "main dumps w =
     (case main_try dumps w initial_state of
        None \<Rightarrow> None
      | Some r \<Rightarrow> Some (main_finally (main_except r)))"

text \<open>
  The events of the guarded region before any failure, and the invariant of the loop:
  the history holds readings with all four categories, and the trace holds events of
  the guarded region only.
\<close>

definition loop_event :: "event \<Rightarrow> bool" where
  "loop_event ev =
     (case ev of
        PrintPublishing _ \<Rightarrow> True
      | Published _ _ \<Rightarrow> True
      | Slept _ \<Rightarrow> True
      | Connected \<Rightarrow> True
      | LoopStarted \<Rightarrow> True
      | _ \<Rightarrow> False)"

definition state_inv :: "state \<Rightarrow> bool" where
  "state_inv s = (list_all wf_reading (ENERGY_DATA s) \<and> list_all loop_event (trace s))"

text \<open>
  A world for concrete evaluation, in which publishing fails in the third iteration,
  and a serializer that succeeds.
\<close>

definition example_world :: world where
  "example_world =
     \<lparr> connect_raises = None,
       loop_start_raises = None,
       clock_and_draws =
         (\<lambda>i. Inr (1700000000 + 5 * int i,
                   Finite 0, Finite (1 / 2), Finite (5 / 16), Finite (15 / 32))),
       publish_raises = (\<lambda>i. if i = 2 then Some (OtherError ''ConnectionError'') else None),
       sleep_raises = (\<lambda>i. None) \<rparr>"

definition example_dumps :: "pyval \<Rightarrow> exn + json" where
  "example_dumps v = Inr (JObject [])"

section \<open>The advisor on a heap of list objects\<close>

text \<open>
  To state what the advisor does to the objects it is given, the same function is
  modelled once more with the store explicit. The heap holds the list objects, by
  address; dicts and scalars are stored in the lists by value, since the advisor writes
  to lists only. The history is the list at address \<open>data\<close>, and
  \<^verbatim>\<open>suggestions = []\<close> allocates a new list at the next free address.
\<close>

type_synonym addr = nat

type_synonym heap = "pyval list list"

text \<open>
  \<^verbatim>\<open>d[k]\<close> on a value, the addition of the running sum, and
  \<^verbatim>\<open>sum(d['appliances'][k] for d in data)\<close> over the values of a list.
\<close>

definition py_getitem :: "pyval \<Rightarrow> string \<Rightarrow> exn + pyval" where
  "py_getitem d k =
     (case d of
        PyDict items \<Rightarrow>
          (case map_of items k of None \<Rightarrow> Inl (KeyError k) | Some v \<Rightarrow> Inr v)
      | _ \<Rightarrow> Inl (TypeError ''object is not subscriptable''))"

definition py_add :: "double \<Rightarrow> pyval \<Rightarrow> exn + double" where
  "py_add acc v =
     (case v of
        PyFloat x \<Rightarrow> Inr (fadd acc x)
      | _ \<Rightarrow> Inl (TypeError ''unsupported operand type(s) for +''))"

fun sum_values :: "string \<Rightarrow> pyval list \<Rightarrow> double \<Rightarrow> exn + double" where
  "sum_values k [] acc = Inr acc"
| "sum_values k (d # ds) acc =
     (case py_getitem d ''appliances'' of
        Inl e \<Rightarrow> Inl e
      | Inr a \<Rightarrow>
          (case py_getitem a k of
             Inl e \<Rightarrow> Inl e
           | Inr v \<Rightarrow>
               (case py_add acc v of
                  Inl e \<Rightarrow> Inl e
                | Inr acc' \<Rightarrow> sum_values k ds acc')))"

definition alloc_list :: "heap \<Rightarrow> addr \<times> heap" where
  "alloc_list h = (length h, h @ [[]])"

definition list_append :: "addr \<Rightarrow> pyval \<Rightarrow> heap \<Rightarrow> heap" where
  "list_append a v h = h[a := h ! a @ [v]]"

definition optimize_energy_usage_heap :: "addr \<Rightarrow> heap \<Rightarrow> (exn + addr) \<times> heap" where
  "optimize_energy_usage_heap data h =
     (case sum_values ''heating'' (h ! data) (Finite 0) of
        Inl e \<Rightarrow> (Inl e, h) | Inr total_heating \<Rightarrow>
     (case sum_values ''cooling'' (h ! data) (Finite 0) of
        Inl e \<Rightarrow> (Inl e, h) | Inr total_cooling \<Rightarrow>
     (case sum_values ''lighting'' (h ! data) (Finite 0) of
        Inl e \<Rightarrow> (Inl e, h) | Inr total_lighting \<Rightarrow>
     (case sum_values ''electronics'' (h ! data) (Finite 0) of
        Inl e \<Rightarrow> (Inl e, h) | Inr total_electronics \<Rightarrow>
        (let (suggestions, h) = alloc_list h;
             h = (if fgt total_heating total_cooling
                  then list_append suggestions (PyStr msg_heating) h else h);
             h = (if fgt total_cooling total_heating
                  then list_append suggestions (PyStr msg_cooling) h else h);
             h = (if fgt total_lighting
                       (fmul (float_lit 0.3) (float_of_nat (length (h ! data))))
                  then list_append suggestions (PyStr msg_lighting) h else h);
             h = (if fgt total_electronics
                       (fmul (float_lit 0.5) (float_of_nat (length (h ! data))))
                  then list_append suggestions (PyStr msg_electronics) h else h)
         in (Inr suggestions, h))))))"

text \<open>
  What a caller sees of a call: the exception, or the contents of the returned list.
  \<open>advisor_on xs\<close> is that, for a heap holding nothing but the history \<open>xs\<close>.
\<close>

definition result_view :: "(exn + addr) \<times> heap \<Rightarrow> exn + pyval list" where
  "result_view r = (case r of (Inl e, h) \<Rightarrow> Inl e | (Inr a, h) \<Rightarrow> Inr (h ! a))"

definition advisor_on :: "pyval list \<Rightarrow> exn + pyval list" where
  "advisor_on xs = result_view (optimize_energy_usage_heap 0 [xs])"

definition example_heap :: heap where
  "example_heap = [[PyStr ''unrelated''], [reading_value (example_reading 0.2 1.0 0.5 0.9)]]"

section \<open>Properties of floating-point rounding\<close>

lemma exponent_bounds:
  assumes "x \<noteq> 0"
  shows "2 powi exponent x \<le> \<bar>x\<bar>" "\<bar>x\<bar> < 2 powi (exponent x + 1)"
proof -
  define y where "y = \<bar>x\<bar>"
  with assms have y: "0 < y" by simp
  have "2 powi exponent x \<le> y \<and> y < 2 powi (exponent x + 1)"
  proof (cases "1 \<le> y")
    case True
    then have f: "0 < \<lfloor>y\<rfloor>" by linarith
    define b where "b = bitlen \<lfloor>y\<rfloor>"
    from bitlen_bounds [OF f] have b: "2 ^ nat (b - 1) \<le> \<lfloor>y\<rfloor>" "\<lfloor>y\<rfloor> < 2 ^ nat b"
      by (simp_all add: b_def)
    have b1: "1 \<le> b"
      using f bitlen_eq_zero_iff [of "\<lfloor>y\<rfloor>"] bitlen_nonneg [of "\<lfloor>y\<rfloor>"]
      unfolding b_def by linarith
    have e: "exponent x = b - 1"
      using True by (simp add: exponent_def y_def b_def)
    from b(1) have "rat_of_int (2 ^ nat (b - 1)) \<le> y"
      by (simp only: le_floor_iff)
    then have lo: "2 powi (b - 1) \<le> y"
      using b1 by (simp add: power_int_nonneg_exp)
    from b(2) have "y < rat_of_int (2 ^ nat b)"
      by (simp only: floor_less_iff)
    then have hi: "y < 2 powi b"
      using b1 by (simp add: power_int_nonneg_exp)
    from lo hi e show ?thesis by simp
  next
    case False
    with y have y1: "1 < 1 / y" by simp
    define m where "m = \<lceil>1 / y\<rceil> - 1"
    from y1 have m: "0 < m" unfolding m_def by linarith
    define c where "c = bitlen m"
    from bitlen_bounds [OF m] have c: "2 ^ nat (c - 1) \<le> m" "m < 2 ^ nat c"
      by (simp_all add: c_def)
    have c1: "1 \<le> c"
      using m bitlen_eq_zero_iff [of m] bitlen_nonneg [of m]
      unfolding c_def by linarith
    have e: "exponent x = - c"
      using False by (simp add: exponent_def y_def c_def m_def)
    from c(2) have "\<lceil>1 / y\<rceil> \<le> 2 ^ nat c" by (simp add: m_def)
    then have "1 / y \<le> rat_of_int (2 ^ nat c)" by (simp only: ceiling_le_iff)
    then have "1 / y \<le> 2 ^ nat c" by simp
    with y have "1 / 2 ^ nat c \<le> y"
      by (simp add: field_simps)
    then have lo: "2 powi (- c) \<le> y"
      using c1 by (simp add: power_int_minus_divide power_int_nonneg_exp)
    from c(1) have "2 ^ nat (c - 1) < \<lceil>1 / y\<rceil>" by (simp add: m_def)
    then have "rat_of_int (2 ^ nat (c - 1)) < 1 / y" by (simp only: less_ceiling_iff)
    then have "2 ^ nat (c - 1) < 1 / y" by simp
    with y have "y < 1 / 2 ^ nat (c - 1)"
      by (simp add: field_simps)
    moreover have "(2::rat) powi (- (c - 1)) = 1 / 2 ^ nat (c - 1)"
      using c1 by (simp only: power_int_minus_divide) (simp add: power_int_nonneg_exp)
    ultimately have "y < 2 powi (- (c - 1))" by simp
    moreover have "- (c - 1) = - c + 1" by simp
    ultimately have hi: "y < 2 powi (- c + 1)" by (simp only:)
    from lo hi e show ?thesis by simp
  qed
  then show "2 powi exponent x \<le> \<bar>x\<bar>" "\<bar>x\<bar> < 2 powi (exponent x + 1)"
    by (simp_all add: y_def)
qed

lemma exponent_bounds_pos:
  assumes "0 < x"
  shows "2 powi exponent x \<le> x" "x < 2 powi (exponent x + 1)"
  using exponent_bounds [of x] assms by simp_all

lemma exponent_mono:
  assumes "0 < x" "x \<le> y"
  shows "exponent x \<le> exponent y"
proof (rule ccontr)
  assume "\<not> exponent x \<le> exponent y"
  then have "exponent y + 1 \<le> exponent x" by simp
  then have "(2::rat) powi (exponent y + 1) \<le> 2 powi exponent x"
    by (intro power_int_increasing) simp_all
  moreover from assms have "y < 2 powi (exponent y + 1)" "2 powi exponent x \<le> x"
    by (simp_all add: exponent_bounds_pos)
  ultimately show False using assms by simp
qed

lemma exponent_unique:
  assumes "2 powi e \<le> x" "x < 2 powi (e + 1)"
  shows "exponent x = e"
proof -
  have pos: "0 < x" using assms(1) zero_less_power_int [of "2::rat" e] by linarith
  note b = exponent_bounds_pos [OF pos]
  have "\<not> exponent x < e"
  proof
    assume "exponent x < e"
    then have "(2::rat) powi (exponent x + 1) \<le> 2 powi e"
      by (intro power_int_increasing) simp_all
    with b(2) assms(1) show False by simp
  qed
  moreover have "\<not> e < exponent x"
  proof
    assume "e < exponent x"
    then have "(2::rat) powi (e + 1) \<le> 2 powi exponent x"
      by (intro power_int_increasing) simp_all
    with b(1) assms(2) show False by simp
  qed
  ultimately show ?thesis by simp
qed

lemma round_half_even_of_int: "round_half_even (of_int k) = k"
  by (simp add: round_half_even_def)

lemma round_half_even_bounds:
  "\<lfloor>x\<rfloor> \<le> round_half_even x" "round_half_even x \<le> \<lfloor>x\<rfloor> + 1"
  by (simp_all add: round_half_even_def Let_def)

lemma round_half_even_mono:
  assumes "x \<le> y"
  shows "round_half_even x \<le> round_half_even y"
proof (cases "\<lfloor>x\<rfloor> = \<lfloor>y\<rfloor>")
  case True
  with assms have "x - of_int \<lfloor>x\<rfloor> \<le> y - of_int \<lfloor>y\<rfloor>" by simp
  with True show ?thesis
    by (auto simp: round_half_even_def Let_def)
next
  case False
  with assms have "\<lfloor>x\<rfloor> < \<lfloor>y\<rfloor>"
    using floor_mono [of x y] by linarith
  then have "\<lfloor>x\<rfloor> + 1 \<le> \<lfloor>y\<rfloor>" by simp
  with round_half_even_bounds(2) [of x] round_half_even_bounds(1) [of y]
  show ?thesis by linarith
qed

lemma quantum_pos: "0 < quantum x"
  by (simp add: quantum_def)

lemma round_to_grid_nonneg:
  assumes "0 \<le> x"
  shows "0 \<le> round_to_grid x"
proof -
  from assms have "0 \<le> x / quantum x" using quantum_pos [of x] by simp
  then have "round_half_even 0 \<le> round_half_even (x / quantum x)"
    by (rule round_half_even_mono)
  then have "0 \<le> round_half_even (x / quantum x)"
    using round_half_even_of_int [of 0] by simp
  then show ?thesis using quantum_pos [of x] by (simp add: round_to_grid_def)
qed

lemma round_to_grid_mono:
  assumes "0 \<le> x" "x \<le> y"
  shows "round_to_grid x \<le> round_to_grid y"
proof (cases "x = 0")
  case True
  then have "round_to_grid x = 0"
    using round_half_even_of_int [of 0] by (simp add: round_to_grid_def)
  with round_to_grid_nonneg [of y] assms show ?thesis by simp
next
  case False
  with assms have pos: "0 < x" "0 < y" by simp_all
  define mx where "mx = max (exponent x) (- 1022)"
  define my where "my = max (exponent y) (- 1022)"
  have q: "quantum x = 2 powi (mx - 52)" "quantum y = 2 powi (my - 52)"
    by (simp_all add: quantum_def mx_def my_def)
  from exponent_mono [OF pos(1) assms(2)] have le: "mx \<le> my"
    by (simp add: mx_def my_def)
  show ?thesis
  proof (cases "mx = my")
    case True
    then have qq: "quantum x = quantum y" by (simp add: q)
    from assms(2) have "x / quantum y \<le> y / quantum y"
      using quantum_pos [of y] by (simp add: divide_right_mono)
    then have "round_half_even (x / quantum y) \<le> round_half_even (y / quantum y)"
      by (rule round_half_even_mono)
    then have "rat_of_int (round_half_even (x / quantum y)) \<le>
        of_int (round_half_even (y / quantum y))" by (simp only: of_int_le_iff)
    then show ?thesis
      using quantum_pos [of y] by (simp add: round_to_grid_def qq mult_right_mono)
  next
    case False
    with le have lt: "mx < my" by simp
    then have my: "my = exponent y" "- 1022 < exponent y" "exponent x < exponent y"
      by (auto simp: mx_def my_def max_def split: if_splits)
    define B :: rat where "B = 2 powi exponent y"
    have Bpos: "0 < B" by (simp add: B_def)
    have "x < 2 powi (exponent x + 1)" using pos by (simp add: exponent_bounds_pos)
    moreover have "(2::rat) powi (exponent x + 1) \<le> 2 powi exponent y"
      using my(3) by (intro power_int_increasing) simp_all
    ultimately have xB: "x \<le> B" using pos by (simp add: B_def)
    have d: "0 \<le> exponent y - (mx - 52)" using lt my(1) by simp
    have "B / quantum x = 2 powi (exponent y - (mx - 52))"
      by (simp add: B_def q power_int_diff)
    also have "\<dots> = 2 ^ nat (exponent y - (mx - 52))"
      using d by (simp add: power_int_nonneg_exp)
    also have "\<dots> = rat_of_int (2 ^ nat (exponent y - (mx - 52)))" by simp
    finally have Bq: "B / quantum x = rat_of_int (2 ^ nat (exponent y - (mx - 52)))" .
    from xB have "x / quantum x \<le> B / quantum x"
      using quantum_pos [of x] by (simp add: divide_right_mono)
    then have "round_half_even (x / quantum x) \<le> round_half_even (B / quantum x)"
      by (rule round_half_even_mono)
    then have "rat_of_int (round_half_even (x / quantum x)) \<le>
        of_int (round_half_even (B / quantum x))" by (simp only: of_int_le_iff)
    also have "of_int (round_half_even (B / quantum x)) = B / quantum x"
      unfolding Bq round_half_even_of_int ..
    finally have "rat_of_int (round_half_even (x / quantum x)) * quantum x \<le>
        B / quantum x * quantum x"
      using quantum_pos [of x] by (simp only: mult_right_mono less_imp_le)
    then have low: "round_to_grid x \<le> B"
      using quantum_pos [of x] by (simp add: round_to_grid_def)
    have "2 powi exponent y \<le> y" using pos by (simp add: exponent_bounds_pos)
    then have By: "B \<le> y" using pos by (simp add: B_def)
    have "B / quantum y = 2 powi (exponent y - (my - 52))"
      by (simp add: B_def q power_int_diff)
    also have "\<dots> = rat_of_int (2 ^ 52)" by (simp add: my(1))
    finally have Bq': "B / quantum y = rat_of_int (2 ^ 52)" .
    from By have "B / quantum y \<le> y / quantum y"
      using quantum_pos [of y] by (simp add: divide_right_mono)
    then have "round_half_even (B / quantum y) \<le> round_half_even (y / quantum y)"
      by (rule round_half_even_mono)
    then have "rat_of_int (round_half_even (B / quantum y)) \<le>
        of_int (round_half_even (y / quantum y))" by (simp only: of_int_le_iff)
    moreover have "of_int (round_half_even (B / quantum y)) = B / quantum y"
      unfolding Bq' round_half_even_of_int ..
    ultimately have "B / quantum y * quantum y \<le>
        rat_of_int (round_half_even (y / quantum y)) * quantum y"
      using quantum_pos [of y] by (simp only: mult_right_mono less_imp_le)
    then have high: "B \<le> round_to_grid y"
      using quantum_pos [of y] by (simp add: round_to_grid_def)
    from low high show ?thesis by simp
  qed
qed

lemma round_to_double_between:
  assumes "0 \<le> x" "x \<le> y" "round_to_double y = Finite b"
  shows "round_to_double x = Finite (round_to_grid x)"
    and "0 \<le> round_to_grid x" and "round_to_grid x \<le> b"
proof -
  from assms(3) have b: "b = round_to_grid y"
    and fin: "\<not> (1024 \<le> exponent (round_to_grid y) \<and> round_to_grid y \<noteq> 0)"
    by (auto simp: round_to_double_def Let_def split: if_splits)
  show nn: "0 \<le> round_to_grid x" using assms(1) by (rule round_to_grid_nonneg)
  show le: "round_to_grid x \<le> b" unfolding b using assms(1,2) by (rule round_to_grid_mono)
  show "round_to_double x = Finite (round_to_grid x)"
  proof (cases "round_to_grid x = 0")
    case True
    then show ?thesis by (simp add: round_to_double_def)
  next
    case False
    with nn have pos: "0 < round_to_grid x" by simp
    with le b have "round_to_grid y \<noteq> 0" by auto
    with fin have "exponent (round_to_grid y) < 1024" by simp
    moreover from pos le b have "exponent (round_to_grid x) \<le> exponent (round_to_grid y)"
      by (intro exponent_mono) simp_all
    ultimately show ?thesis by (simp add: round_to_double_def)
  qed
qed

lemma round_half_even_error: "\<bar>of_int (round_half_even z) - z\<bar> \<le> 1 / 2"
proof -
  have "of_int \<lfloor>z\<rfloor> \<le> z" "z < of_int \<lfloor>z\<rfloor> + 1" by linarith+
  then show ?thesis
    unfolding round_half_even_def Let_def by (auto simp: abs_le_iff)
qed

lemma round_half_even_near:
  assumes "\<bar>z - of_int k\<bar> < 1 / 2"
  shows "round_half_even z = k"
proof (cases "of_int k \<le> z")
  case True
  with assms have "\<lfloor>z\<rfloor> = k" by (intro floor_unique) (simp_all add: abs_less_iff)
  with assms True show ?thesis by (simp add: round_half_even_def Let_def abs_less_iff)
next
  case False
  with assms have f: "\<lfloor>z\<rfloor> = k - 1" by (intro floor_unique) (simp_all add: abs_less_iff)
  with assms False show ?thesis by (simp add: round_half_even_def Let_def abs_less_iff)
qed

lemma round_to_grid_error: "\<bar>round_to_grid y - y\<bar> \<le> quantum y / 2"
proof -
  define a :: rat where "a = of_int (round_half_even (y / quantum y))"
  have "round_to_grid y - y = (a - y / quantum y) * quantum y"
    using quantum_pos [of y] by (simp add: round_to_grid_def a_def left_diff_distrib)
  then have "\<bar>round_to_grid y - y\<bar> = \<bar>a - y / quantum y\<bar> * quantum y"
    using quantum_pos [of y] by (simp add: abs_mult)
  also have "\<dots> \<le> 1 / 2 * quantum y"
    using quantum_pos [of y] round_half_even_error [of "y / quantum y"]
    by (intro mult_right_mono) (simp_all add: a_def)
  finally show ?thesis by simp
qed

lemma py_round_two_decimals:
  assumes k: "1 \<le> k" "k \<le> H" "H < 2 ^ 52"
    and fin: "float_lit (of_int H / 100) = Finite b"
  shows "py_round (float_lit (of_int k / 100)) 2 = float_lit (of_int k / 100)"
proof -
  define y :: rat where "y = of_int k / 100"
  have y: "1 / 100 \<le> y" "0 \<le> y" "y \<le> of_int H / 100"
    using k by (simp_all add: y_def)
  from round_to_double_between(1) [OF y(2,3) fin [unfolded float_lit_def]]
  have v: "float_lit y = Finite (round_to_grid y)" by (simp add: float_lit_def)
  have "exponent (1 / 100) \<le> exponent y" using y(1) by (intro exponent_mono) simp_all
  moreover have "exponent (1 / 100) = - 7" by (rule exponent_unique) simp_all
  ultimately have e: "- 1022 < exponent y" by simp
  then have q: "quantum y = 2 powi exponent y / 2 ^ 52"
    by (simp add: quantum_def max_def power_int_diff)
  have "2 powi exponent y \<le> y" using y(1) by (intro exponent_bounds_pos) simp
  then have "quantum y \<le> y / 2 ^ 52" by (simp add: q divide_right_mono)
  with round_to_grid_error [of y] have "\<bar>round_to_grid y - y\<bar> \<le> y / 2 ^ 52 / 2" by simp
  then have "\<bar>round_to_grid y - y\<bar> * 100 \<le> y / 2 ^ 52 / 2 * 100"
    by (intro mult_right_mono) simp_all
  then have "\<bar>round_to_grid y * 100 - of_int k\<bar> \<le> of_int k / 2 ^ 53"
    by (simp add: y_def abs_mult [symmetric] left_diff_distrib) (simp add: field_simps)
  also have "of_int k / (2 ^ 53 :: rat) < 1 / 2"
  proof -
    from k have "k < 2 ^ 52" by simp
    then have "rat_of_int k < of_int (2 ^ 52)" by (simp only: of_int_less_iff)
    then show ?thesis by simp
  qed
  finally have "round_half_even (round_to_grid y * 100) = k" by (rule round_half_even_near)
  with v show ?thesis by (simp add: float_lit_def y_def)
qed

text \<open>
  Evaluation of a rounding at a concrete value: given the exponent and the significand,
  the side conditions are arithmetic on numerals. The roundings that the examples of
  this theory need are listed.
\<close>

lemma round_to_double_normal:
  assumes e: "- 1022 \<le> e" "e \<le> 1022"
    and x: "2 powi e \<le> x" "x < 2 powi (e + 1)"
    and m: "round_half_even (x * 2 powi (52 - e)) = m"
    and r: "r = of_int m * 2 powi (e - 52)"
  shows "round_to_double x = Finite r"
proof -
  have ex: "exponent x = e" using x by (rule exponent_unique)
  have q: "quantum x = 2 powi (e - 52)" using e(1) by (simp add: quantum_def ex max_def)
  have "x / quantum x = x * 2 powi (52 - e)"
    by (simp add: q power_int_diff field_simps)
  then have g: "round_to_grid x = r"
    by (simp add: round_to_grid_def m r q)
  have pos: "0 < x" using x(1) zero_less_power_int [of "2::rat" e] by linarith
  have "round_to_grid x \<le> round_to_grid (2 powi (e + 1))"
    using pos x(2) by (intro round_to_grid_mono) simp_all
  moreover have "round_to_grid (2 powi (e + 1)) = 2 powi (e + 1)"
  proof -
    have e1: "exponent ((2::rat) powi (e + 1)) = e + 1"
      by (intro exponent_unique power_int_strict_increasing) simp_all
    have q1: "quantum ((2::rat) powi (e + 1)) = 2 powi (e + 1 - 52)"
      using e(1) by (simp add: quantum_def e1 max_def)
    have "(2::rat) powi ((e + 1) - (e + 1 - 52)) = 2 powi (e + 1) / 2 powi (e + 1 - 52)"
      by (rule power_int_diff) simp
    then have d: "(2::rat) powi (e + 1) / 2 powi (e + 1 - 52) = rat_of_int (2 ^ 52)"
      by simp
    have "rat_of_int (round_half_even (2 powi (e + 1) / 2 powi (e + 1 - 52))) =
        2 powi (e + 1) / 2 powi (e + 1 - 52)"
      unfolding d round_half_even_of_int ..
    then show ?thesis
      by (simp add: round_to_grid_def q1)
  qed
  ultimately have le: "r \<le> 2 powi (e + 1)" by (simp add: g)
  have fin: "\<not> (1024 \<le> exponent r \<and> r \<noteq> 0)"
  proof (cases "r = 0")
    case False
    moreover have "0 \<le> r" using round_to_grid_nonneg [of x] pos by (simp add: g)
    ultimately have "0 < r" by simp
    from exponent_mono [OF this le] have "exponent r \<le> exponent ((2::rat) powi (e + 1))" .
    also have "\<dots> = e + 1"
      by (intro exponent_unique power_int_strict_increasing) simp_all
    finally show ?thesis using e(2) by simp
  qed simp
  from fin have "(1024 \<le> exponent r \<and> r \<noteq> 0) = False" by simp
  then show ?thesis by (simp only: round_to_double_def g Let_def if_False)
qed

lemma round_half_even_tie:
  assumes "z = of_int f + 1 / 2"
  shows "round_half_even z = (if even f then f else f + 1)"
proof -
  have "\<lfloor>z\<rfloor> = f" unfolding assms by (intro floor_unique) simp_all
  then show ?thesis by (simp add: round_half_even_def assms)
qed

lemma round_to_double_zero: "round_to_double 0 = Finite 0"
  using round_half_even_of_int [of 0]
  by (simp add: round_to_double_def round_to_grid_def)

lemma roundings:
  "round_to_double (1 / 10) = Finite (3602879701896397 / 36028797018963968)"
  "round_to_double (3602879701896397 / 36028797018963968) = Finite (3602879701896397 / 36028797018963968)"
  "round_to_double (18014398509481985 / 144115188075855872) = Finite (1 / 8)"
  "round_to_double (1 / 5) = Finite (3602879701896397 / 18014398509481984)"
  "round_to_double (3602879701896397 / 18014398509481984) = Finite (3602879701896397 / 18014398509481984)"
  "round_to_double (8106479329266893 / 36028797018963968) = Finite (8106479329266893 / 36028797018963968)"
  "round_to_double (23 / 100) = Finite (8286623314361713 / 36028797018963968)"
  "round_to_double (8286623314361713 / 36028797018963968) = Finite (8286623314361713 / 36028797018963968)"
  "round_to_double (5404319552844595 / 18014398509481984) = Finite (5404319552844595 / 18014398509481984)"
  "round_to_double (3 / 10) = Finite (5404319552844595 / 18014398509481984)"
  "round_to_double (10808639105689191 / 36028797018963968) = Finite (1351079888211149 / 4503599627370496)"
  "round_to_double (54043195528445955 / 144115188075855872) = Finite (3 / 8)"
  "round_to_double (14411518807585587 / 36028797018963968) = Finite (3602879701896397 / 9007199254740992)"
  "round_to_double (2 / 5) = Finite (3602879701896397 / 9007199254740992)"
  "round_to_double (3602879701896397 / 9007199254740992) = Finite (3602879701896397 / 9007199254740992)"
  "round_to_double (1 / 2) = Finite (1 / 2)"
  "round_to_double (18014398509481985 / 36028797018963968) = Finite (1 / 2)"
  "round_to_double (5134103575202365 / 9007199254740992) = Finite (5134103575202365 / 9007199254740992)"
  "round_to_double (57 / 100) = Finite (5134103575202365 / 9007199254740992)"
  "round_to_double (10358279142952141 / 18014398509481984) = Finite (2589569785738035 / 4503599627370496)"
  "round_to_double (5404319552844595 / 9007199254740992) = Finite (5404319552844595 / 9007199254740992)"
  "round_to_double (21617278211378381 / 36028797018963968) = Finite (5404319552844595 / 9007199254740992)"
  "round_to_double (10808639105689191 / 18014398509481984) = Finite (1351079888211149 / 2251799813685248)"
  "round_to_double (14411518807585587 / 18014398509481984) = Finite (3602879701896397 / 4503599627370496)"
  "round_to_double (3602879701896397 / 4503599627370496) = Finite (3602879701896397 / 4503599627370496)"
  "round_to_double (16212958658533785 / 18014398509481984) = Finite (2026619832316723 / 2251799813685248)"
  "round_to_double (9 / 10) = Finite (8106479329266893 / 9007199254740992)"
  "round_to_double (8106479329266893 / 9007199254740992) = Finite (8106479329266893 / 9007199254740992)"
  "round_to_double (16212958658533787 / 18014398509481984) = Finite (4053239664633447 / 4503599627370496)"
  "round_to_double 1 = Finite 1"
  "round_to_double (18014398509481985 / 18014398509481984) = Finite 1"
  "round_to_double (11 / 10) = Finite (2476979795053773 / 2251799813685248)"
  "round_to_double (2476979795053773 / 2251799813685248) = Finite (2476979795053773 / 2251799813685248)"
  "round_to_double (5 / 4) = Finite (5 / 4)"
  "round_to_double (3 / 2) = Finite (3 / 2)"
  "round_to_double (3715469692580659 / 2251799813685248) = Finite (3715469692580659 / 2251799813685248)"
  "round_to_double (33 / 20) = Finite (3715469692580659 / 2251799813685248)"
  "round_to_double (7 / 4) = Finite (7 / 4)"
  "round_to_double 2 = Finite 2"
  "round_to_double (11 / 5) = Finite (2476979795053773 / 1125899906842624)"
  "round_to_double (5 / 2) = Finite (5 / 2)"
  "round_to_double 3 = Finite 3"
  "round_to_double (3715469692580659 / 1125899906842624) = Finite (3715469692580659 / 1125899906842624)"
  "round_to_double (7430939385161319 / 2251799813685248) = Finite (7430939385161319 / 2251799813685248)"
proof -
  show "round_to_double (1 / 10) = Finite (3602879701896397 / 36028797018963968)"
    by (rule round_to_double_normal [where e = "- 4" and m = 7205759403792794])
      (simp_all add: round_half_even_near [where k = 7205759403792794])
  show "round_to_double (3602879701896397 / 36028797018963968) = Finite (3602879701896397 / 36028797018963968)"
    by (rule round_to_double_normal [where e = "- 4" and m = 7205759403792794])
      (simp_all add: round_half_even_near [where k = 7205759403792794])
  show "round_to_double (18014398509481985 / 144115188075855872) = Finite (1 / 8)"
    by (rule round_to_double_normal [where e = "- 3" and m = 4503599627370496])
      (simp_all add: round_half_even_near [where k = 4503599627370496])
  show "round_to_double (1 / 5) = Finite (3602879701896397 / 18014398509481984)"
    by (rule round_to_double_normal [where e = "- 3" and m = 7205759403792794])
      (simp_all add: round_half_even_near [where k = 7205759403792794])
  show "round_to_double (3602879701896397 / 18014398509481984) = Finite (3602879701896397 / 18014398509481984)"
    by (rule round_to_double_normal [where e = "- 3" and m = 7205759403792794])
      (simp_all add: round_half_even_near [where k = 7205759403792794])
  show "round_to_double (8106479329266893 / 36028797018963968) = Finite (8106479329266893 / 36028797018963968)"
    by (rule round_to_double_normal [where e = "- 3" and m = 8106479329266893])
      (simp_all add: round_half_even_near [where k = 8106479329266893])
  show "round_to_double (23 / 100) = Finite (8286623314361713 / 36028797018963968)"
    by (rule round_to_double_normal [where e = "- 3" and m = 8286623314361713])
      (simp_all add: round_half_even_near [where k = 8286623314361713])
  show "round_to_double (8286623314361713 / 36028797018963968) = Finite (8286623314361713 / 36028797018963968)"
    by (rule round_to_double_normal [where e = "- 3" and m = 8286623314361713])
      (simp_all add: round_half_even_near [where k = 8286623314361713])
  show "round_to_double (5404319552844595 / 18014398509481984) = Finite (5404319552844595 / 18014398509481984)"
    by (rule round_to_double_normal [where e = "- 2" and m = 5404319552844595])
      (simp_all add: round_half_even_near [where k = 5404319552844595])
  show "round_to_double (3 / 10) = Finite (5404319552844595 / 18014398509481984)"
    by (rule round_to_double_normal [where e = "- 2" and m = 5404319552844595])
      (simp_all add: round_half_even_near [where k = 5404319552844595])
  show "round_to_double (10808639105689191 / 36028797018963968) = Finite (1351079888211149 / 4503599627370496)"
    by (rule round_to_double_normal [where e = "- 2" and m = 5404319552844596])
      (simp_all add: round_half_even_tie [where f = 5404319552844595])
  show "round_to_double (54043195528445955 / 144115188075855872) = Finite (3 / 8)"
    by (rule round_to_double_normal [where e = "- 2" and m = 6755399441055744])
      (simp_all add: round_half_even_near [where k = 6755399441055744])
  show "round_to_double (14411518807585587 / 36028797018963968) = Finite (3602879701896397 / 9007199254740992)"
    by (rule round_to_double_normal [where e = "- 2" and m = 7205759403792794])
      (simp_all add: round_half_even_tie [where f = 7205759403792793])
  show "round_to_double (2 / 5) = Finite (3602879701896397 / 9007199254740992)"
    by (rule round_to_double_normal [where e = "- 2" and m = 7205759403792794])
      (simp_all add: round_half_even_near [where k = 7205759403792794])
  show "round_to_double (3602879701896397 / 9007199254740992) = Finite (3602879701896397 / 9007199254740992)"
    by (rule round_to_double_normal [where e = "- 2" and m = 7205759403792794])
      (simp_all add: round_half_even_near [where k = 7205759403792794])
  show "round_to_double (1 / 2) = Finite (1 / 2)"
    by (rule round_to_double_normal [where e = "- 1" and m = 4503599627370496])
      (simp_all add: round_half_even_near [where k = 4503599627370496])
  show "round_to_double (18014398509481985 / 36028797018963968) = Finite (1 / 2)"
    by (rule round_to_double_normal [where e = "- 1" and m = 4503599627370496])
      (simp_all add: round_half_even_near [where k = 4503599627370496])
  show "round_to_double (5134103575202365 / 9007199254740992) = Finite (5134103575202365 / 9007199254740992)"
    by (rule round_to_double_normal [where e = "- 1" and m = 5134103575202365])
      (simp_all add: round_half_even_near [where k = 5134103575202365])
  show "round_to_double (57 / 100) = Finite (5134103575202365 / 9007199254740992)"
    by (rule round_to_double_normal [where e = "- 1" and m = 5134103575202365])
      (simp_all add: round_half_even_near [where k = 5134103575202365])
  show "round_to_double (10358279142952141 / 18014398509481984) = Finite (2589569785738035 / 4503599627370496)"
    by (rule round_to_double_normal [where e = "- 1" and m = 5179139571476070])
      (simp_all add: round_half_even_tie [where f = 5179139571476070])
  show "round_to_double (5404319552844595 / 9007199254740992) = Finite (5404319552844595 / 9007199254740992)"
    by (rule round_to_double_normal [where e = "- 1" and m = 5404319552844595])
      (simp_all add: round_half_even_near [where k = 5404319552844595])
  show "round_to_double (21617278211378381 / 36028797018963968) = Finite (5404319552844595 / 9007199254740992)"
    by (rule round_to_double_normal [where e = "- 1" and m = 5404319552844595])
      (simp_all add: round_half_even_near [where k = 5404319552844595])
  show "round_to_double (10808639105689191 / 18014398509481984) = Finite (1351079888211149 / 2251799813685248)"
    by (rule round_to_double_normal [where e = "- 1" and m = 5404319552844596])
      (simp_all add: round_half_even_tie [where f = 5404319552844595])
  show "round_to_double (14411518807585587 / 18014398509481984) = Finite (3602879701896397 / 4503599627370496)"
    by (rule round_to_double_normal [where e = "- 1" and m = 7205759403792794])
      (simp_all add: round_half_even_tie [where f = 7205759403792793])
  show "round_to_double (3602879701896397 / 4503599627370496) = Finite (3602879701896397 / 4503599627370496)"
    by (rule round_to_double_normal [where e = "- 1" and m = 7205759403792794])
      (simp_all add: round_half_even_near [where k = 7205759403792794])
  show "round_to_double (16212958658533785 / 18014398509481984) = Finite (2026619832316723 / 2251799813685248)"
    by (rule round_to_double_normal [where e = "- 1" and m = 8106479329266892])
      (simp_all add: round_half_even_tie [where f = 8106479329266892])
  show "round_to_double (9 / 10) = Finite (8106479329266893 / 9007199254740992)"
    by (rule round_to_double_normal [where e = "- 1" and m = 8106479329266893])
      (simp_all add: round_half_even_near [where k = 8106479329266893])
  show "round_to_double (8106479329266893 / 9007199254740992) = Finite (8106479329266893 / 9007199254740992)"
    by (rule round_to_double_normal [where e = "- 1" and m = 8106479329266893])
      (simp_all add: round_half_even_near [where k = 8106479329266893])
  show "round_to_double (16212958658533787 / 18014398509481984) = Finite (4053239664633447 / 4503599627370496)"
    by (rule round_to_double_normal [where e = "- 1" and m = 8106479329266894])
      (simp_all add: round_half_even_tie [where f = 8106479329266893])
  show "round_to_double 1 = Finite 1"
    by (rule round_to_double_normal [where e = 0 and m = 4503599627370496])
      (simp_all add: round_half_even_near [where k = 4503599627370496])
  show "round_to_double (18014398509481985 / 18014398509481984) = Finite 1"
    by (rule round_to_double_normal [where e = 0 and m = 4503599627370496])
      (simp_all add: round_half_even_near [where k = 4503599627370496])
  show "round_to_double (11 / 10) = Finite (2476979795053773 / 2251799813685248)"
    by (rule round_to_double_normal [where e = 0 and m = 4953959590107546])
      (simp_all add: round_half_even_near [where k = 4953959590107546])
  show "round_to_double (2476979795053773 / 2251799813685248) = Finite (2476979795053773 / 2251799813685248)"
    by (rule round_to_double_normal [where e = 0 and m = 4953959590107546])
      (simp_all add: round_half_even_near [where k = 4953959590107546])
  show "round_to_double (5 / 4) = Finite (5 / 4)"
    by (rule round_to_double_normal [where e = 0 and m = 5629499534213120])
      (simp_all add: round_half_even_near [where k = 5629499534213120])
  show "round_to_double (3 / 2) = Finite (3 / 2)"
    by (rule round_to_double_normal [where e = 0 and m = 6755399441055744])
      (simp_all add: round_half_even_near [where k = 6755399441055744])
  show "round_to_double (3715469692580659 / 2251799813685248) = Finite (3715469692580659 / 2251799813685248)"
    by (rule round_to_double_normal [where e = 0 and m = 7430939385161318])
      (simp_all add: round_half_even_near [where k = 7430939385161318])
  show "round_to_double (33 / 20) = Finite (3715469692580659 / 2251799813685248)"
    by (rule round_to_double_normal [where e = 0 and m = 7430939385161318])
      (simp_all add: round_half_even_near [where k = 7430939385161318])
  show "round_to_double (7 / 4) = Finite (7 / 4)"
    by (rule round_to_double_normal [where e = 0 and m = 7881299347898368])
      (simp_all add: round_half_even_near [where k = 7881299347898368])
  show "round_to_double 2 = Finite 2"
    by (rule round_to_double_normal [where e = 1 and m = 4503599627370496])
      (simp_all add: round_half_even_near [where k = 4503599627370496])
  show "round_to_double (11 / 5) = Finite (2476979795053773 / 1125899906842624)"
    by (rule round_to_double_normal [where e = 1 and m = 4953959590107546])
      (simp_all add: round_half_even_near [where k = 4953959590107546])
  show "round_to_double (5 / 2) = Finite (5 / 2)"
    by (rule round_to_double_normal [where e = 1 and m = 5629499534213120])
      (simp_all add: round_half_even_near [where k = 5629499534213120])
  show "round_to_double 3 = Finite 3"
    by (rule round_to_double_normal [where e = 1 and m = 6755399441055744])
      (simp_all add: round_half_even_near [where k = 6755399441055744])
  show "round_to_double (3715469692580659 / 1125899906842624) = Finite (3715469692580659 / 1125899906842624)"
    by (rule round_to_double_normal [where e = 1 and m = 7430939385161318])
      (simp_all add: round_half_even_near [where k = 7430939385161318])
  show "round_to_double (7430939385161319 / 2251799813685248) = Finite (7430939385161319 / 2251799813685248)"
    by (rule round_to_double_normal [where e = 1 and m = 7430939385161319])
      (simp_all add: round_half_even_near [where k = 7430939385161319])
qed

lemma half_even_roundings:
  "round_half_even (202661983231672325 / 9007199254740992) = 23"
  "round_half_even 50 = 50"
  "round_half_even (64739244643450875 / 1125899906842624) = 57"
  "round_half_even 175 = 175"
proof -
  show "round_half_even (202661983231672325 / 9007199254740992) = 23"
    by (rule round_half_even_near) simp
  show "round_half_even 50 = 50"
    by (rule round_half_even_near) simp
  show "round_half_even (64739244643450875 / 1125899906842624) = 57"
    by (rule round_half_even_near) simp
  show "round_half_even 175 = 175"
    by (rule round_half_even_near) simp
qed

lemmas float_eval = float_lit_def float_of_nat_def fsub_def uniform_def
  round_to_double_zero roundings half_even_roundings



lemma float_lit_mono:
  assumes "0 \<le> x" "x \<le> y" "float_lit y = Finite b"
  shows "fle (float_lit x) (float_lit y)"
  using round_to_double_between(1,3) [OF assms(1,2) assms(3) [unfolded float_lit_def]] assms(3)
  by (simp add: float_lit_def)

section \<open>Properties of the advisor\<close>

lemma sum_appliance_total:
  "list_all wf_reading data \<Longrightarrow> k \<in> set categories \<Longrightarrow>
   sum_appliance k data acc =
     Inr (foldl fadd acc
            (map (\<lambda>d. case appliances d k of None \<Rightarrow> Finite 0 | Some v \<Rightarrow> v) data))"
proof (induction data arbitrary: acc)
  case Nil
  then show ?case by simp
next
  case (Cons d ds)
  from Cons.prems have "appliances d k \<noteq> None"
    by (simp add: wf_reading_def list_all_iff)
  then obtain v where v: "appliances d k = Some v" by blast
  from Cons.prems have "list_all wf_reading ds" by simp
  from Cons.IH [OF this Cons.prems(2)] v show ?case
    by simp
qed

lemma optimize_energy_usage_wf:
  assumes "list_all wf_reading data"
  shows "optimize_energy_usage data =
         Inr ((if fgt (total_of ''heating'' data) (total_of ''cooling'' data)
               then [msg_heating] else []) @
              (if fgt (total_of ''cooling'' data) (total_of ''heating'' data)
               then [msg_cooling] else []) @
              (if fgt (total_of ''lighting'' data)
                    (fmul (float_lit 0.3) (float_of_nat (length data)))
               then [msg_lighting] else []) @
              (if fgt (total_of ''electronics'' data)
                    (fmul (float_lit 0.5) (float_of_nat (length data)))
               then [msg_electronics] else []))"
  using assms
  by (simp add: optimize_energy_usage_def sum_appliance_total categories_def Let_def
      total_of_def)

lemma msgs_distinct:
  "distinct [msg_heating, msg_cooling, msg_lighting, msg_electronics]"
  by (simp add: msg_heating_def msg_cooling_def msg_lighting_def msg_electronics_def)

lemma wf_example_reading: "wf_reading (example_reading h c l e)"
  by (simp add: wf_reading_def example_reading_def categories_def)

lemma example_advice:
  "optimize_energy_usage [example_reading 0.2 1.0 0.5 0.9] =
     Inr [msg_cooling, msg_lighting, msg_electronics]"
  by (simp add: optimize_energy_usage_def example_reading_def float_eval)

text \<open>
  C3. Applied to the empty history, the advisor returns the empty suggestion list.
\<close>

theorem optimize_energy_usage_empty: "optimize_energy_usage [] = Inr []"
  by (simp add: optimize_energy_usage_def float_eval)





text \<open>
  C4. The suggestions come in check order: the output is a subsequence of heating,
  cooling, lighting, electronics, without repetition.
\<close>

theorem advisor_check_order:
  assumes "list_all wf_reading data"
  shows "\<exists>s. optimize_energy_usage data = Inr s \<and>
           subseq s [msg_heating, msg_cooling, msg_lighting, msg_electronics] \<and>
           distinct s"
  using msgs_distinct by (auto simp: optimize_energy_usage_wf [OF assms])

theorem advisor_check_order_witness:
  "list_all wf_reading [example_reading 0.2 1.0 0.5 0.9] \<and>
   optimize_energy_usage [example_reading 0.2 1.0 0.5 0.9] =
     Inr [msg_cooling, msg_lighting, msg_electronics] \<and>
   (\<exists>s. optimize_energy_usage [example_reading 0.2 1.0 0.5 0.9] = Inr s \<and>
        subseq s [msg_heating, msg_cooling, msg_lighting, msg_electronics] \<and> distinct s)"
proof -
  have wf: "list_all wf_reading [example_reading 0.2 1.0 0.5 0.9]"
    by (simp add: wf_example_reading)
  note r = example_advice
  from advisor_check_order [OF wf] wf r show ?thesis
    by simp
qed

section \<open>Properties of the reading generator\<close>

lemma drawn_value:
  fixes a b c d lo hi :: rat and L H :: int
  assumes lit: "float_lit lo = Finite a" "float_lit hi = Finite b"
    and sub: "fsub (Finite b) (Finite a) = Finite d" "0 \<le> d" "round_to_double d = Finite d"
    and aa: "0 \<le> a" "round_to_double a = Finite a"
    and add: "round_to_double (a + d) = Finite c" "c \<le> b"
    and dec: "of_int L / 100 \<le> a" "b \<le> of_int H / 100"
    and u: "unit_draw u"
  shows "\<exists>k. L \<le> k \<and> k \<le> H \<and>
           py_round (uniform (float_lit lo) (float_lit hi) u) 2 = float_lit (of_int k / 100)"
proof -
  from u obtain x where x: "u = Finite x" "0 \<le> x" "x < 1" by (cases u) simp_all
  have dx: "0 \<le> d * x" "d * x \<le> d"
    using sub(2) x(2,3) by (simp_all add: mult_left_le)
  note t = round_to_double_between [OF dx sub(3)]
  define t where "t = round_to_grid (d * x)"
  have at: "0 \<le> a + t" "a + t \<le> a + d" using aa(1) t(2,3) by (simp_all add: t_def)
  note s = round_to_double_between [OF at add(1)]
  define s where "s = round_to_grid (a + t)"
  have un: "uniform (float_lit lo) (float_lit hi) u = Finite s"
    by (simp add: uniform_def lit sub(1) x(1) t(1) [folded t_def] s(1) [folded s_def])
  have "a \<le> a + t" using t(2) by (simp add: t_def)
  from round_to_double_between(1,3) [OF aa(1) this s(1) [folded s_def]] aa(2)
  have as: "a \<le> s" by (simp add: s_def)
  from s(3) add(2) have sb: "s \<le> b" by (simp add: s_def)
  define k where "k = round_half_even (s * 100)"
  from dec(1) as have "of_int L \<le> s * 100" by simp
  then have "round_half_even (of_int L) \<le> k" unfolding k_def by (rule round_half_even_mono)
  then have L: "L \<le> k" by (simp add: round_half_even_of_int)
  from dec(2) sb have "s * 100 \<le> of_int H" by simp
  then have "k \<le> round_half_even (of_int H)" unfolding k_def by (rule round_half_even_mono)
  then have H: "k \<le> H" by (simp add: round_half_even_of_int)
  have "py_round (uniform (float_lit lo) (float_lit hi) u) 2 = float_lit (of_int k / 100)"
    unfolding un by (simp add: k_def float_lit_def)
  with L H show ?thesis by blast
qed

lemma drawn_value_in_range:
  fixes a b c d lo hi :: rat and L H :: int
  assumes lit: "float_lit lo = Finite a" "float_lit hi = Finite b"
    and sub: "fsub (Finite b) (Finite a) = Finite d" "0 \<le> d" "round_to_double d = Finite d"
    and aa: "0 \<le> a" "round_to_double a = Finite a"
    and add: "round_to_double (a + d) = Finite c" "c \<le> b"
    and dec: "lo = of_int L / 100" "hi = of_int H / 100" "lo \<le> a" "b \<le> hi"
    and LH: "1 \<le> L" "H < 2 ^ 52"
    and u: "unit_draw u"
  shows "fle (float_lit lo) (py_round (uniform (float_lit lo) (float_lit hi) u) 2) \<and>
         fle (py_round (uniform (float_lit lo) (float_lit hi) u) 2) (float_lit hi) \<and>
         two_decimals (py_round (uniform (float_lit lo) (float_lit hi) u) 2)"
proof -
  from drawn_value [OF lit sub aa add dec(3,4) [unfolded dec(1,2)] u]
  obtain k where k: "L \<le> k" "k \<le> H"
    "py_round (uniform (float_lit lo) (float_lit hi) u) 2 = float_lit (of_int k / 100)"
    by blast
  have hi: "float_lit (of_int H / 100) = Finite b" using lit(2) by (simp add: dec(2))
  have x: "(0::rat) \<le> of_int L / 100" "rat_of_int L / 100 \<le> of_int k / 100"
    "(0::rat) \<le> of_int k / 100" "rat_of_int k / 100 \<le> of_int H / 100"
    using k(1,2) LH(1) by simp_all
  have up: "fle (float_lit (of_int k / 100)) (float_lit (of_int H / 100))"
    using x(3,4) hi by (rule float_lit_mono)
  from round_to_double_between(1) [OF x(3,4) hi [unfolded float_lit_def]]
  obtain v where v: "float_lit (of_int k / 100) = Finite v"
    by (simp add: float_lit_def)
  have low: "fle (float_lit (of_int L / 100)) (float_lit (of_int k / 100))"
    using x(1,2) v by (rule float_lit_mono)
  have two: "two_decimals (float_lit (of_int k / 100))"
    unfolding two_decimals_def using k(1,2) LH hi
    by (intro py_round_two_decimals [where H = H and b = b]) simp_all
  from up low two show ?thesis
    unfolding dec(1,2) by (simp add: k(3) [unfolded dec(1,2)])
qed

text \<open>
  C5. Whatever the clock and the four draws, the generated reading has exactly the four
  appliance values, each within its declared range and with two decimal digits.
\<close>

theorem generate_energy_data_ranges:
  assumes "unit_draw u1" "unit_draw u2" "unit_draw u3" "unit_draw u4"
  shows "dom (appliances (generate_energy_data now u1 u2 u3 u4)) =
           {''heating'', ''cooling'', ''lighting'', ''electronics''} \<and>
         in_range (generate_energy_data now u1 u2 u3 u4) ''heating'' 0.5 3.0 \<and>
         in_range (generate_energy_data now u1 u2 u3 u4) ''cooling'' 0.5 3.0 \<and>
         in_range (generate_energy_data now u1 u2 u3 u4) ''lighting'' 0.1 0.5 \<and>
         in_range (generate_energy_data now u1 u2 u3 u4) ''electronics'' 0.2 1.0"
proof -
  have hc: "fle (float_lit 0.5) (py_round (uniform (float_lit 0.5) (float_lit 3.0) u) 2) \<and>
         fle (py_round (uniform (float_lit 0.5) (float_lit 3.0) u) 2) (float_lit 3.0) \<and>
         two_decimals (py_round (uniform (float_lit 0.5) (float_lit 3.0) u) 2)"
    if "unit_draw u" for u
  proof (rule drawn_value_in_range [where a = "1 / 2" and b = 3 and d = "5 / 2" and c = 3
        and L = 50 and H = 300, OF _ _ _ _ _ _ _ _ _ _ _ _ _ _ _ that])
    show "float_lit 0.5 = Finite (1 / 2)" "float_lit 3.0 = Finite 3"
      "fsub (Finite 3) (Finite (1 / 2)) = Finite (5 / 2)"
      "round_to_double (5 / 2) = Finite (5 / 2)" "round_to_double (1 / 2) = Finite (1 / 2)"
      "round_to_double (1 / 2 + 5 / 2) = Finite 3"
      by (simp_all add: float_eval)
  qed simp_all
  have l: "fle (float_lit 0.1) (py_round (uniform (float_lit 0.1) (float_lit 0.5) u) 2) \<and>
         fle (py_round (uniform (float_lit 0.1) (float_lit 0.5) u) 2) (float_lit 0.5) \<and>
         two_decimals (py_round (uniform (float_lit 0.1) (float_lit 0.5) u) 2)"
    if "unit_draw u" for u
  proof (rule drawn_value_in_range [where a = "3602879701896397 / 36028797018963968"
        and b = "1 / 2" and d = "3602879701896397 / 9007199254740992" and c = "1 / 2"
        and L = 10 and H = 50, OF _ _ _ _ _ _ _ _ _ _ _ _ _ _ _ that])
    show "float_lit 0.1 = Finite (3602879701896397 / 36028797018963968)"
      "float_lit 0.5 = Finite (1 / 2)"
      "fsub (Finite (1 / 2)) (Finite (3602879701896397 / 36028797018963968)) =
         Finite (3602879701896397 / 9007199254740992)"
      "round_to_double (3602879701896397 / 9007199254740992) =
         Finite (3602879701896397 / 9007199254740992)"
      "round_to_double (3602879701896397 / 36028797018963968) =
         Finite (3602879701896397 / 36028797018963968)"
      "round_to_double (3602879701896397 / 36028797018963968 +
         3602879701896397 / 9007199254740992) = Finite (1 / 2)"
      by (simp_all add: float_eval)
  qed simp_all
  have e: "fle (float_lit 0.2) (py_round (uniform (float_lit 0.2) (float_lit 1.0) u) 2) \<and>
         fle (py_round (uniform (float_lit 0.2) (float_lit 1.0) u) 2) (float_lit 1.0) \<and>
         two_decimals (py_round (uniform (float_lit 0.2) (float_lit 1.0) u) 2)"
    if "unit_draw u" for u
  proof (rule drawn_value_in_range [where a = "3602879701896397 / 18014398509481984"
        and b = 1 and d = "3602879701896397 / 4503599627370496" and c = 1
        and L = 20 and H = 100, OF _ _ _ _ _ _ _ _ _ _ _ _ _ _ _ that])
    show "float_lit 0.2 = Finite (3602879701896397 / 18014398509481984)"
      "float_lit 1.0 = Finite 1"
      "fsub (Finite 1) (Finite (3602879701896397 / 18014398509481984)) =
         Finite (3602879701896397 / 4503599627370496)"
      "round_to_double (3602879701896397 / 4503599627370496) =
         Finite (3602879701896397 / 4503599627370496)"
      "round_to_double (3602879701896397 / 18014398509481984) =
         Finite (3602879701896397 / 18014398509481984)"
      "round_to_double (3602879701896397 / 18014398509481984 +
         3602879701896397 / 4503599627370496) = Finite 1"
      by (simp_all add: float_eval)
  qed simp_all
  have d: "dom (appliances (generate_energy_data now u1 u2 u3 u4)) =
           {''heating'', ''cooling'', ''lighting'', ''electronics''}"
    by (auto simp: generate_energy_data_def)
  from d hc [OF assms(1)] hc [OF assms(2)] l [OF assms(3)] e [OF assms(4)] show ?thesis
    by (simp add: in_range_def generate_energy_data_def)
qed

theorem generate_energy_data_ranges_witness:
  "unit_draw (Finite 0) \<and> unit_draw (Finite (1 / 2)) \<and> unit_draw (Finite (5 / 16)) \<and>
   unit_draw (Finite (15 / 32)) \<and>
   map (appliances (generate_energy_data 1700000000
          (Finite 0) (Finite (1 / 2)) (Finite (5 / 16)) (Finite (15 / 32)))) categories =
     [Some (float_lit 0.5), Some (float_lit 1.75), Some (float_lit 0.23),
      Some (float_lit 0.57)] \<and>
   in_range (generate_energy_data 1700000000
          (Finite 0) (Finite (1 / 2)) (Finite (5 / 16)) (Finite (15 / 32))) ''heating'' 0.5 3.0 \<and>
   in_range (generate_energy_data 1700000000
          (Finite 0) (Finite (1 / 2)) (Finite (5 / 16)) (Finite (15 / 32))) ''cooling'' 0.5 3.0 \<and>
   in_range (generate_energy_data 1700000000
          (Finite 0) (Finite (1 / 2)) (Finite (5 / 16)) (Finite (15 / 32))) ''lighting'' 0.1 0.5 \<and>
   in_range (generate_energy_data 1700000000
          (Finite 0) (Finite (1 / 2)) (Finite (5 / 16)) (Finite (15 / 32))) ''electronics'' 0.2 1.0"
proof -
  have d: "unit_draw (Finite 0)" "unit_draw (Finite (1 / 2))" "unit_draw (Finite (5 / 16))"
    "unit_draw (Finite (15 / 32))"
    by simp_all
  have v: "map (appliances (generate_energy_data 1700000000
          (Finite 0) (Finite (1 / 2)) (Finite (5 / 16)) (Finite (15 / 32)))) categories =
     [Some (float_lit 0.5), Some (float_lit 1.75), Some (float_lit 0.23),
      Some (float_lit 0.57)]"
    by (simp add: generate_energy_data_def categories_def float_eval)
  from generate_energy_data_ranges [OF d, of 1700000000] d v show ?thesis
    by simp
qed

section \<open>Properties of serialization\<close>

lemma json_dumps_reading:
  "json_dumps (reading_value d) =
     Inl (TypeError ''Object of type Timestamp is not JSON serializable'')"
  by (simp add: reading_value_def)

lemma json_round_trip_serializable:
  "serializable v \<Longrightarrow> \<exists>j. json_dumps v = Inr j \<and> json_loads j = v"
  "list_all (\<lambda>(k, v). serializable v) items \<Longrightarrow>
   \<exists>js. json_dumps_items items = Inr js \<and> map (\<lambda>(k, j). (k, json_loads j)) js = items"
  by (induction v and items rule: json_dumps_json_dumps_items.induct) auto

text \<open>
  C6. Serializing a reading and decoding the result does not give the reading back:
  \<open>json_dumps\<close> raises \<^verbatim>\<open>TypeError\<close> on every reading, because of its
  timestamp, so no payload exists. A value without timestamps does make the round trip
  (\<open>json_round_trip_serializable\<close>).
\<close>

theorem json_dumps_reading_raises:
  "json_dumps (reading_value d) =
     Inl (TypeError ''Object of type Timestamp is not JSON serializable'') \<and>
   \<not> (\<exists>j. json_dumps (reading_value d) = Inr j \<and> json_loads j = reading_value d)"
  by (simp add: json_dumps_reading)

section \<open>Properties of the publisher loop\<close>

lemma while_true_stop:
  "snd (loop_body dumps w i s) = Some e \<Longrightarrow>
   while_true dumps w i s = Some (fst (loop_body dumps w i s), e)"
  by (subst while_true.simps) (cases "loop_body dumps w i s", simp)

lemma while_true_continue:
  "snd (loop_body dumps w i s) = None \<Longrightarrow>
   while_true dumps w i s = while_true dumps w (Suc i) (fst (loop_body dumps w i s))"
  by (subst while_true.simps) (cases "loop_body dumps w i s", simp)

lemma while_true_raises:
  assumes "\<forall>j<k. snd (loop_body dumps w (i + j) (iterations dumps w i j s)) = None"
    and "snd (loop_body dumps w (i + k) (iterations dumps w i k s)) = Some e"
  shows "while_true dumps w i s =
         Some (fst (loop_body dumps w (i + k) (iterations dumps w i k s)), e)"
  using assms
proof (induction k arbitrary: i s)
  case 0
  then show ?case
    by (simp add: while_true_stop)
next
  case (Suc k)
  from Suc.prems(1) have ok: "snd (loop_body dumps w i s) = None"
    by (metis add.right_neutral iterations.simps(1) zero_less_Suc)
  have "\<forall>j<k. snd (loop_body dumps w (Suc i + j)
            (iterations dumps w (Suc i) j (fst (loop_body dumps w i s)))) = None"
  proof (intro allI impI)
    fix j assume "j < k"
    then have "Suc j < Suc k" by simp
    with Suc.prems(1) have "snd (loop_body dumps w (i + Suc j)
        (iterations dumps w i (Suc j) s)) = None" by blast
    then show "snd (loop_body dumps w (Suc i + j)
            (iterations dumps w (Suc i) j (fst (loop_body dumps w i s)))) = None"
      by simp
  qed
  moreover from Suc.prems(2) have "snd (loop_body dumps w (Suc i + k)
      (iterations dumps w (Suc i) k (fst (loop_body dumps w i s)))) = Some e"
    by simp
  ultimately have "while_true dumps w (Suc i) (fst (loop_body dumps w i s)) =
      Some (fst (loop_body dumps w (Suc i + k)
        (iterations dumps w (Suc i) k (fst (loop_body dumps w i s)))), e)"
    by (rule Suc.IH)
  with ok show ?case
    by (simp add: while_true_continue)
qed

lemma iterations_Suc:
  "iterations dumps w i (Suc n) s =
   fst (loop_body dumps w (i + n) (iterations dumps w i n s))"
  by (induction n arbitrary: i s) simp_all

text \<open>
  C7. If the first exception of the loop is raised in iteration \<open>k\<close> and is of class
  \<^verbatim>\<open>Exception\<close>, then \<^verbatim>\<open>publish_energy_data\<close> returns without an exception;
  the state it returns is the one reached in iteration \<open>k\<close> with the error logged, so
  no later iteration runs.
\<close>

theorem publish_energy_data_catches:
  assumes "\<forall>j<k. snd (loop_body dumps w j (iterations dumps w 0 j s)) = None"
    and "snd (loop_body dumps w k (iterations dumps w 0 k s)) = Some e"
    and "is_Exception e"
  shows "publish_energy_data dumps w s =
         Some (emit (PrintPublishError e) (iterations dumps w 0 (Suc k) s), None)"
proof -
  from assms(1,2) have "while_true dumps w 0 s =
      Some (fst (loop_body dumps w (0 + k) (iterations dumps w 0 k s)), e)"
    by (intro while_true_raises) simp_all
  then have "while_true dumps w 0 s = Some (iterations dumps w 0 (Suc k) s, e)"
    by (simp only: iterations_Suc)
  with assms(3) show ?thesis
    by (simp add: publish_energy_data_def)
qed

lemma example_loop_body:
  "loop_body example_dumps example_world i s =
     (let energy_data = generate_energy_data (1700000000 + 5 * int i)
            (Finite 0) (Finite (1 / 2)) (Finite (5 / 16)) (Finite (15 / 32));
          s = emit (PrintPublishing energy_data)
                (s\<lparr>ENERGY_DATA := ENERGY_DATA s @ [energy_data]\<rparr>)
      in if i = 2 then (s, Some (OtherError ''ConnectionError''))
         else (emit (Slept 5) (emit (Published MQTT_TOPIC (JObject [])) s), None))"
  by (simp add: loop_body_def example_world_def example_dumps_def Let_def)

theorem publish_energy_data_catches_witness:
  "snd (loop_body example_dumps example_world 0
          (iterations example_dumps example_world 0 0 initial_state)) = None \<and>
   snd (loop_body example_dumps example_world 1
          (iterations example_dumps example_world 0 1 initial_state)) = None \<and>
   snd (loop_body example_dumps example_world 2
          (iterations example_dumps example_world 0 2 initial_state)) =
     Some (OtherError ''ConnectionError'') \<and>
   is_Exception (OtherError ''ConnectionError'') \<and>
   publish_energy_data example_dumps example_world initial_state =
     Some (emit (PrintPublishError (OtherError ''ConnectionError''))
             (iterations example_dumps example_world 0 3 initial_state), None) \<and>
   length (ENERGY_DATA (iterations example_dumps example_world 0 3 initial_state)) = 3 \<and>
   length (trace (iterations example_dumps example_world 0 3 initial_state)) = 7"
proof -
  have it: "iterations example_dumps example_world 0 2 initial_state =
      fst (loop_body example_dumps example_world 1
             (fst (loop_body example_dumps example_world 0 initial_state)))"
    "iterations example_dumps example_world 0 3 initial_state =
      fst (loop_body example_dumps example_world 2
        (fst (loop_body example_dumps example_world 1
             (fst (loop_body example_dumps example_world 0 initial_state)))))"
    by (simp_all add: numeral_2_eq_2 numeral_3_eq_3)
  have h1: "\<forall>j<2. snd (loop_body example_dumps example_world j
               (iterations example_dumps example_world 0 j initial_state)) = None"
    by (simp add: example_loop_body Let_def)
  have h2: "snd (loop_body example_dumps example_world 2
          (iterations example_dumps example_world 0 2 initial_state)) =
     Some (OtherError ''ConnectionError'')"
    by (simp add: example_loop_body Let_def)
  have h3: "is_Exception (OtherError ''ConnectionError'')" by simp
  have l: "length (ENERGY_DATA (iterations example_dumps example_world 0 3 initial_state)) = 3"
    "length (trace (iterations example_dumps example_world 0 3 initial_state)) = 7"
    unfolding it by (simp_all add: example_loop_body emit_def initial_state_def Let_def)
  have h0: "snd (loop_body example_dumps example_world 0
          (iterations example_dumps example_world 0 0 initial_state)) = None"
    "snd (loop_body example_dumps example_world 1
          (iterations example_dumps example_world 0 1 initial_state)) = None"
    by (simp_all add: example_loop_body Let_def)
  from publish_energy_data_catches [OF h1 h2 h3] h0 h2 h3 l show ?thesis
    by simp
qed

text \<open>
  An exception outside the class \<^verbatim>\<open>Exception\<close> leaves the function. With
  \<open>json_dumps\<close> the function always returns, since the first iteration raises.
\<close>

lemma publish_energy_data_propagates:
  assumes "\<forall>j<k. snd (loop_body dumps w j (iterations dumps w 0 j s)) = None"
    and "snd (loop_body dumps w k (iterations dumps w 0 k s)) = Some e"
    and "\<not> is_Exception e"
  shows "publish_energy_data dumps w s = Some (iterations dumps w 0 (Suc k) s, Some e)"
proof -
  from assms(1,2) have "while_true dumps w 0 s =
      Some (fst (loop_body dumps w (0 + k) (iterations dumps w 0 k s)), e)"
    by (intro while_true_raises) simp_all
  then have "while_true dumps w 0 s = Some (iterations dumps w 0 (Suc k) s, e)"
    by (simp only: iterations_Suc)
  with assms(3) show ?thesis
    by (simp add: publish_energy_data_def)
qed

lemma publish_energy_data_json_dumps:
  "\<exists>s' r. publish_energy_data json_dumps w s = Some (s', r)"
proof (cases "snd (loop_body json_dumps w 0 s)")
  case None
  then show ?thesis
    by (auto simp: loop_body_def json_dumps_reading Let_def split: sum.splits prod.splits)
next
  case (Some e)
  then have "while_true json_dumps w 0 s = Some (fst (loop_body json_dumps w 0 s), e)"
    by (rule while_true_stop)
  then show ?thesis by (simp add: publish_energy_data_def)
qed

section \<open>Properties of the main program\<close>

lemma wf_generate_energy_data: "wf_reading (generate_energy_data now u1 u2 u3 u4)"
  by (simp add: wf_reading_def generate_energy_data_def categories_def)

lemma loop_body_inv:
  assumes "state_inv s"
  shows "state_inv (fst (loop_body dumps w i s))"
  using assms
  by (auto simp: state_inv_def loop_body_def emit_def Let_def loop_event_def
      wf_generate_energy_data split: sum.splits prod.splits option.splits)

lemma while_true_inv:
  assumes "while_true dumps w i s = Some y"
  shows "state_inv s \<longrightarrow> state_inv (fst y)"
  using assms
proof (rule while_true.raw_induct
    [rotated 1, where P = "\<lambda>dumps w i s y. state_inv s \<longrightarrow> state_inv (fst y)"],
    goal_cases)
  case (1 wt dumps w i s y)
  show ?case
  proof
    assume inv: "state_inv s"
    obtain s1 r where b: "loop_body dumps w i s = (s1, r)"
      by (cases "loop_body dumps w i s")
    from loop_body_inv [OF inv, of dumps w i] b have inv1: "state_inv s1" by simp
    show "state_inv (fst y)"
    proof (cases r)
      case None
      with 1(2) b have "wt dumps w (Suc i) s1 = Some y" by simp
      from 1(1) [OF this] inv1 show ?thesis by simp
    next
      case (Some e')
      with 1(2) b inv1 show ?thesis by auto
    qed
  qed
qed

lemma publish_energy_data_inv:
  assumes "publish_energy_data dumps w s = Some (s', r)" and "state_inv s"
  shows "list_all wf_reading (ENERGY_DATA s') \<and>
         LoopStopped \<notin> set (trace s') \<and> PrintHeader \<notin> set (trace s')"
proof -
  from assms(1) obtain s1 e where wt: "while_true dumps w 0 s = Some (s1, e)"
    and s': "s' = (if is_Exception e then emit (PrintPublishError e) s1 else s1)"
    by (auto simp: publish_energy_data_def split: option.splits prod.splits if_splits)
  from while_true_inv [OF wt] assms(2) have "state_inv s1" by simp
  then show ?thesis
    by (auto simp: s' state_inv_def emit_def list_all_iff loop_event_def)
qed

text \<open>
  C8. However the guarded region ends (an exception from the client setup, a return
  of \<^verbatim>\<open>publish_energy_data\<close>, or an exception leaving it), the program stops
  the client loop, runs the advisor once on the history collected, and prints the
  header and its suggestions; the trace holds no earlier cleanup or header.
\<close>

theorem main_finalization:
  assumes "main_try dumps w initial_state = Some (s1, pending)"
  shows "\<exists>s2 s' r optimizations.
           main_except (s1, pending) = (s2, r) \<and>
           main dumps w = Some (s', r) \<and>
           ENERGY_DATA s2 = ENERGY_DATA s1 \<and>
           ENERGY_DATA s' = ENERGY_DATA s1 \<and>
           optimize_energy_usage (ENERGY_DATA s1) = Inr optimizations \<and>
           trace s' = trace s2 @ [LoopStopped, PrintHeader] @
                        map PrintSuggestion optimizations \<and>
           LoopStopped \<notin> set (trace s2) \<and> PrintHeader \<notin> set (trace s2)"
proof -
  have init: "state_inv initial_state" "state_inv (emit LoopStarted (emit Connected initial_state))"
    by (simp_all add: state_inv_def initial_state_def emit_def loop_event_def)
  have s1: "list_all wf_reading (ENERGY_DATA s1) \<and>
         LoopStopped \<notin> set (trace s1) \<and> PrintHeader \<notin> set (trace s1)"
  proof (cases "connect_raises w")
    case (Some e)
    with assms show ?thesis by (auto simp: main_try_def initial_state_def)
  next
    case None
    note c = this
    show ?thesis
    proof (cases "loop_start_raises w")
      case (Some e)
      with c assms show ?thesis
        by (auto simp: main_try_def initial_state_def emit_def Let_def)
    next
      case None
      with c assms have "publish_energy_data dumps w
          (emit LoopStarted (emit Connected initial_state)) = Some (s1, pending)"
        by (simp add: main_try_def Let_def)
      from publish_energy_data_inv [OF this init(2)] show ?thesis .
    qed
  qed
  obtain s2 r where ex: "main_except (s1, pending) = (s2, r)"
    by (cases "main_except (s1, pending)")
  then have s2: "ENERGY_DATA s2 = ENERGY_DATA s1"
    "LoopStopped \<notin> set (trace s2)" "PrintHeader \<notin> set (trace s2)"
    using s1 by (auto simp: main_except_def emit_def split: option.splits if_splits)
  from s1 obtain optimizations
    where opt: "optimize_energy_usage (ENERGY_DATA s1) = Inr optimizations"
    using optimize_energy_usage_wf by blast
  from assms ex s2 opt show ?thesis
    by (simp add: main_def main_finally_def emit_def Let_def)
qed

theorem main_finalization_witness:
  "main_try json_dumps example_world initial_state =
     Some (\<lparr>ENERGY_DATA = [generate_energy_data 1700000000
                (Finite 0) (Finite (1 / 2)) (Finite (5 / 16)) (Finite (15 / 32))],
            trace = [Connected, LoopStarted,
                     PrintPublishing (generate_energy_data 1700000000
                (Finite 0) (Finite (1 / 2)) (Finite (5 / 16)) (Finite (15 / 32))),
                     PrintPublishError
                       (TypeError ''Object of type Timestamp is not JSON serializable'')]\<rparr>,
           None) \<and>
   main json_dumps example_world =
     Some (\<lparr>ENERGY_DATA = [generate_energy_data 1700000000
                (Finite 0) (Finite (1 / 2)) (Finite (5 / 16)) (Finite (15 / 32))],
            trace = [Connected, LoopStarted,
                     PrintPublishing (generate_energy_data 1700000000
                (Finite 0) (Finite (1 / 2)) (Finite (5 / 16)) (Finite (15 / 32))),
                     PrintPublishError
                       (TypeError ''Object of type Timestamp is not JSON serializable''),
                     LoopStopped, PrintHeader,
                     PrintSuggestion msg_cooling, PrintSuggestion msg_electronics]\<rparr>,
           None)"
proof -
  let ?d = "generate_energy_data 1700000000
                (Finite 0) (Finite (1 / 2)) (Finite (5 / 16)) (Finite (15 / 32))"
  let ?s1 = "\<lparr>ENERGY_DATA = [?d],
            trace = [Connected, LoopStarted, PrintPublishing ?d,
                     PrintPublishError
                       (TypeError ''Object of type Timestamp is not JSON serializable'')]\<rparr>"
  have b: "loop_body json_dumps example_world 0 (emit LoopStarted (emit Connected initial_state)) =
      (\<lparr>ENERGY_DATA = [?d], trace = [Connected, LoopStarted, PrintPublishing ?d]\<rparr>,
       Some (TypeError ''Object of type Timestamp is not JSON serializable''))"
    by (simp add: loop_body_def example_world_def json_dumps_reading emit_def
        initial_state_def Let_def)
  have wt: "while_true json_dumps example_world 0
        (emit LoopStarted (emit Connected initial_state)) =
      Some (\<lparr>ENERGY_DATA = [?d], trace = [Connected, LoopStarted, PrintPublishing ?d]\<rparr>,
            TypeError ''Object of type Timestamp is not JSON serializable'')"
    using while_true_stop [of json_dumps example_world 0
        "emit LoopStarted (emit Connected initial_state)"
        "TypeError ''Object of type Timestamp is not JSON serializable''"]
    by (simp add: b)
  have c: "connect_raises example_world = None" "loop_start_raises example_world = None"
    by (simp_all add: example_world_def)
  have p: "publish_energy_data json_dumps example_world
        (emit LoopStarted (emit Connected initial_state)) = Some (?s1, None)"
    unfolding publish_energy_data_def wt by (simp add: emit_def)
  have t: "main_try json_dumps example_world initial_state = Some (?s1, None)"
    by (simp add: main_try_def p c Let_def)
  have o: "optimize_energy_usage [?d] = Inr [msg_cooling, msg_electronics]"
    by (simp add: optimize_energy_usage_def generate_energy_data_def float_eval)
  from main_finalization [OF t] t o show ?thesis
    by (auto simp: main_except_def)
qed

lemma main_json_dumps_terminates: "\<exists>s' r. main json_dumps w = Some (s', r)"
proof -
  have "\<exists>x. main_try json_dumps w initial_state = Some x"
    using publish_energy_data_json_dumps [of w]
    by (auto simp: main_try_def Let_def split: option.splits)
  then show ?thesis
    by (auto simp: main_def)
qed

section \<open>Properties of the advisor on the heap\<close>

lemma list_append_fresh:
  "list_append (length h) v (h @ [xs]) = h @ [xs @ [v]]"
  by (simp add: list_append_def)

lemma optimize_energy_usage_heap_nf:
  assumes "data < length h"
  shows "optimize_energy_usage_heap data h =
     (case sum_values ''heating'' (h ! data) (Finite 0) of Inl e \<Rightarrow> (Inl e, h) | Inr t_h \<Rightarrow>
     (case sum_values ''cooling'' (h ! data) (Finite 0) of Inl e \<Rightarrow> (Inl e, h) | Inr t_c \<Rightarrow>
     (case sum_values ''lighting'' (h ! data) (Finite 0) of Inl e \<Rightarrow> (Inl e, h) | Inr t_l \<Rightarrow>
     (case sum_values ''electronics'' (h ! data) (Finite 0) of Inl e \<Rightarrow> (Inl e, h) | Inr t_e \<Rightarrow>
        (Inr (length h),
         h @ [(if fgt t_h t_c then [PyStr msg_heating] else []) @
              (if fgt t_c t_h then [PyStr msg_cooling] else []) @
              (if fgt t_l (fmul (float_lit 0.3) (float_of_nat (length (h ! data))))
               then [PyStr msg_lighting] else []) @
              (if fgt t_e (fmul (float_lit 0.5) (float_of_nat (length (h ! data))))
               then [PyStr msg_electronics] else [])])))))"
proof -
  have n: "(h @ [xs]) ! data = h ! data" for xs
    using assms by (simp add: nth_append)
  show ?thesis
    by (simp add: optimize_energy_usage_heap_def alloc_list_def list_append_fresh n Let_def
        split: sum.splits)
qed

lemma advisor_on_nf:
  "advisor_on xs =
     (case sum_values ''heating'' xs (Finite 0) of Inl e \<Rightarrow> Inl e | Inr t_h \<Rightarrow>
     (case sum_values ''cooling'' xs (Finite 0) of Inl e \<Rightarrow> Inl e | Inr t_c \<Rightarrow>
     (case sum_values ''lighting'' xs (Finite 0) of Inl e \<Rightarrow> Inl e | Inr t_l \<Rightarrow>
     (case sum_values ''electronics'' xs (Finite 0) of Inl e \<Rightarrow> Inl e | Inr t_e \<Rightarrow>
        Inr ((if fgt t_h t_c then [PyStr msg_heating] else []) @
             (if fgt t_c t_h then [PyStr msg_cooling] else []) @
             (if fgt t_l (fmul (float_lit 0.3) (float_of_nat (length xs)))
              then [PyStr msg_lighting] else []) @
             (if fgt t_e (fmul (float_lit 0.5) (float_of_nat (length xs)))
              then [PyStr msg_electronics] else []))))))"
  unfolding advisor_on_def
  by (subst optimize_energy_usage_heap_nf) (simp_all add: result_view_def split: sum.splits)

lemma optimize_energy_usage_heap_eq:
  assumes "data < length h"
  shows "optimize_energy_usage_heap data h =
         (case advisor_on (h ! data) of
            Inl e \<Rightarrow> (Inl e, h)
          | Inr s \<Rightarrow> (Inr (length h), h @ [s]))"
  unfolding optimize_energy_usage_heap_nf [OF assms] advisor_on_nf
  by (simp split: sum.splits)

text \<open>
  On a history of readings with all four categories the heap model returns the
  suggestions of \<open>optimize_energy_usage\<close>.
\<close>

lemma reading_value_appliances:
  assumes "wf_reading d" and "k \<in> set categories"
  shows "\<exists>a v. py_getitem (reading_value d) ''appliances'' = Inr a \<and>
           appliances d k = Some v \<and> py_getitem a k = Inr (PyFloat v)"
  using assms
  by (auto simp: wf_reading_def categories_def reading_value_def py_getitem_def)

lemma sum_values_reading:
  assumes "list_all wf_reading rs" and "k \<in> set categories"
  shows "sum_values k (map reading_value rs) acc = sum_appliance k rs acc"
  using assms(1)
proof (induction rs arbitrary: acc)
  case Nil
  then show ?case by simp
next
  case (Cons d ds)
  from Cons.prems have "wf_reading d" by simp
  from reading_value_appliances [OF this assms(2)] obtain a v
    where "py_getitem (reading_value d) ''appliances'' = Inr a"
      "appliances d k = Some v" "py_getitem a k = Inr (PyFloat v)" by blast
  with Cons show ?case by (simp add: py_add_def)
qed

lemma optimize_energy_usage_heap_refines:
  assumes "list_all wf_reading rs"
  shows "advisor_on (map reading_value rs) =
         map_sum id (map PyStr) (optimize_energy_usage rs)"
  using assms
  by (simp add: advisor_on_nf sum_values_reading sum_appliance_total
      optimize_energy_usage_wf categories_def total_of_def)

text \<open>
  C9. Two invocations of the advisor on the same snapshot of the history give the same
  result: whatever else the two heaps hold, and in particular when the second call runs
  in the heap that the first call left.
\<close>

theorem optimize_energy_usage_heap_deterministic:
  assumes "data < length h" and "data' < length h'" and "h' ! data' = h ! data"
  shows "result_view (optimize_energy_usage_heap data' h') =
           result_view (optimize_energy_usage_heap data h) \<and>
         result_view (optimize_energy_usage_heap data
                        (snd (optimize_energy_usage_heap data h))) =
           result_view (optimize_energy_usage_heap data h)"
proof -
  have v: "result_view (optimize_energy_usage_heap a g) = advisor_on (g ! a)"
    if "a < length g" for a g
    using that by (simp add: optimize_energy_usage_heap_eq result_view_def split: sum.splits)
  let ?h1 = "snd (optimize_energy_usage_heap data h)"
  from assms(1) have h1: "data < length ?h1" "?h1 ! data = h ! data"
    by (simp_all add: optimize_energy_usage_heap_eq nth_append split: sum.splits)
  from assms h1 show ?thesis by (simp add: v)
qed

theorem optimize_energy_usage_heap_deterministic_witness:
  "(1::nat) < length example_heap \<and>
   (0::nat) < length [[reading_value (example_reading 0.2 1.0 0.5 0.9)]] \<and>
   [[reading_value (example_reading 0.2 1.0 0.5 0.9)]] ! 0 = example_heap ! 1 \<and>
   result_view (optimize_energy_usage_heap 0 [[reading_value (example_reading 0.2 1.0 0.5 0.9)]]) =
     Inr [PyStr msg_cooling, PyStr msg_lighting, PyStr msg_electronics] \<and>
   result_view (optimize_energy_usage_heap 1 example_heap) =
     Inr [PyStr msg_cooling, PyStr msg_lighting, PyStr msg_electronics] \<and>
   result_view (optimize_energy_usage_heap 1 (snd (optimize_energy_usage_heap 1 example_heap))) =
     Inr [PyStr msg_cooling, PyStr msg_lighting, PyStr msg_electronics]"
proof -
  have l: "(1::nat) < length example_heap"
    "(0::nat) < length [[reading_value (example_reading 0.2 1.0 0.5 0.9)]]"
    "[[reading_value (example_reading 0.2 1.0 0.5 0.9)]] ! 0 = example_heap ! 1"
    by (simp_all add: example_heap_def)
  have r: "result_view (optimize_energy_usage_heap 1 example_heap) =
     Inr [PyStr msg_cooling, PyStr msg_lighting, PyStr msg_electronics]"
    by (simp add: result_view_def optimize_energy_usage_heap_def example_heap_def
        reading_value_def categories_def example_reading_def py_getitem_def py_add_def
        alloc_list_def list_append_def float_eval)
  from optimize_energy_usage_heap_deterministic [OF l] l r show ?thesis by simp
qed

text \<open>
  C10. The advisor leaves every object that existed before the call unchanged, so the
  history list and the readings in it are the same before and after.
\<close>

theorem optimize_energy_usage_heap_frame:
  assumes "data < length h"
  shows "take (length h) (snd (optimize_energy_usage_heap data h)) = h \<and>
         snd (optimize_energy_usage_heap data h) ! data = h ! data"
  using assms
  by (simp add: optimize_energy_usage_heap_eq nth_append split: sum.splits)

theorem optimize_energy_usage_heap_frame_witness:
  "(1::nat) < length example_heap \<and>
   optimize_energy_usage_heap 1 example_heap =
     (Inr 2, example_heap @ [[PyStr msg_cooling, PyStr msg_lighting, PyStr msg_electronics]]) \<and>
   take (length example_heap) (snd (optimize_energy_usage_heap 1 example_heap)) =
     example_heap \<and>
   snd (optimize_energy_usage_heap 1 example_heap) ! 1 = example_heap ! 1"
proof -
  have l: "(1::nat) < length example_heap" by (simp add: example_heap_def)
  have r: "optimize_energy_usage_heap 1 example_heap =
     (Inr 2, example_heap @ [[PyStr msg_cooling, PyStr msg_lighting, PyStr msg_electronics]])"
    by (simp add: optimize_energy_usage_heap_def example_heap_def reading_value_def
        categories_def example_reading_def py_getitem_def py_add_def alloc_list_def
        list_append_def float_eval)
  from optimize_energy_usage_heap_frame [OF l] l r show ?thesis by simp
qed

end
